theory Spec2Isabelle
  imports Complex_Main
begin

section \<open>Strings and the string builtins the scraper calls\<close>

text \<open>
  A Python \<open>str\<close> is a sequence of code points. It is modelled as a \<open>string\<close> with one
  \<open>char\<close> per code point, which covers the code points up to U+00FF; the pound sign
  U+00A3 of the price texts is the single character \<open>CHR 0xA3\<close>.
\<close>

definition pound :: char where
  "pound = CHR 0xA3"

text \<open>\<open>str.isspace\<close> on one character, for the code points up to U+00FF.\<close>

definition py_isspace :: "char \<Rightarrow> bool" where
  "py_isspace c =
     (let n = (of_char c :: nat)
      in (9 \<le> n \<and> n \<le> 13) \<or> (28 \<le> n \<and> n \<le> 32) \<or> n = 133 \<or> n = 160)"

text \<open>\<open>s.strip()\<close>: whitespace is removed at both ends.\<close>

definition py_strip :: "string \<Rightarrow> string" where
  "py_strip s = rev (dropWhile py_isspace (rev (dropWhile py_isspace s)))"

text \<open>
  \<open>s.replace(old, new)\<close>: every occurrence of \<open>old\<close> is replaced, scanning from the
  left and continuing after each occurrence. \<open>replace_from\<close> is the scan for a non-empty
  \<open>old\<close>; for the empty \<open>old\<close> Python puts \<open>new\<close> before every character and at the end.
\<close>

function replace_from :: "string \<Rightarrow> string \<Rightarrow> string \<Rightarrow> string" where
  "replace_from old new [] = []"
| "replace_from old new (c # cs) =
     (if old \<noteq> [] \<and> take (length old) (c # cs) = old
      then new @ replace_from old new (drop (length old) (c # cs))
      else c # replace_from old new cs)"
  by pat_completeness auto
termination
  by (relation "measure (\<lambda>(old, new, s). length s)") auto

definition py_replace :: "string \<Rightarrow> string \<Rightarrow> string \<Rightarrow> string" where
  "py_replace s old new =
     (if old = [] then new @ concat (map (\<lambda>c. c # new) s) else replace_from old new s)"

text \<open>The decimal rendering of a non-negative integer, as an f-string field gives it.\<close>

definition digit_char :: "nat \<Rightarrow> char" where
  "digit_char d = ''0123456789'' ! d"

function str_of_nat :: "nat \<Rightarrow> string" where
  "str_of_nat n = (if n < 10 then [digit_char n] else str_of_nat (n div 10) @ [digit_char (n mod 10)])"
  by pat_completeness auto
termination
  by (relation "measure id") auto

subsection \<open>The builtin \<open>float\<close> on strings\<close>

text \<open>
  The exceptions the scraper can raise. \<open>RequestException\<close> stands for whatever
  \<open>requests.get\<close> raises when the request does not complete (a fetch error).
  \<open>AttributeError\<close>, \<open>TypeError\<close>, \<open>KeyError\<close> and \<open>IndexError\<close> come from a page that is
  not laid out as expected (a parse error), and \<open>ValueError\<close> from \<open>float\<close> (a format
  error). Nothing in the scraper catches an exception.
\<close>

datatype exn = RequestException | AttributeError | TypeError | KeyError | IndexError | ValueError

text \<open>
  The value of a float. \<open>Finite q\<close> stands for the binary64 number that the decimal value
  \<open>q\<close> is rounded to (an infinity when \<open>q\<close> is beyond the range); the rounding itself is
  not modelled. \<open>Inf neg\<close> is the infinity of the given sign.
\<close>

datatype pyfloat = Finite rat | Inf bool | Nan

definition is_digit :: "char \<Rightarrow> bool" where
  "is_digit c = (let n = (of_char c :: nat) in 48 \<le> n \<and> n \<le> 57)"

definition digit_val :: "char \<Rightarrow> nat" where
  "digit_val c = of_char c - 48"

definition digits_value :: "string \<Rightarrow> nat" where
  "digits_value ds = foldl (\<lambda>n c. 10 * n + digit_val c) 0 ds"

definition to_lower :: "char \<Rightarrow> char" where
  "to_lower c =
     (case map_of (zip ''ABCDEFGHIJKLMNOPQRSTUVWXYZ'' ''abcdefghijklmnopqrstuvwxyz'') c of
        None \<Rightarrow> c
      | Some l \<Rightarrow> l)"

text \<open>
  The whitespace \<open>float\<close> removes around the number: the ASCII whitespace, and U+0085 and
  U+00A0, which it first turns into spaces. U+001C to U+001F are not removed.
\<close>

definition float_isspace :: "char \<Rightarrow> bool" where
  "float_isspace c =
     (let n = (of_char c :: nat) in (9 \<le> n \<and> n \<le> 13) \<or> n = 32 \<or> n = 133 \<or> n = 160)"

definition float_strip :: "string \<Rightarrow> string" where
  "float_strip s = rev (dropWhile float_isspace (rev (dropWhile float_isspace s)))"

text \<open>
  Underscores are allowed between two digits only and are dropped before the number is
  read. \<open>prev\<close> is the character before the current one (\<open>None\<close> at the start).
\<close>

fun drop_underscores :: "char option \<Rightarrow> string \<Rightarrow> string option" where
  "drop_underscores prev [] = (if prev = Some CHR ''_'' then None else Some [])"
| "drop_underscores prev (c # cs) =
     (if c = CHR ''_''
      then (case prev of
              None \<Rightarrow> None
            | Some p \<Rightarrow> if is_digit p then drop_underscores (Some c) cs else None)
      else if prev = Some CHR ''_'' \<and> \<not> is_digit c then None
      else map_option ((#) c) (drop_underscores (Some c) cs))"

definition split_sign :: "string \<Rightarrow> bool \<times> string" where
  "split_sign s =
     (case s of
        [] \<Rightarrow> (False, [])
      | c # cs \<Rightarrow> if c = CHR ''-'' then (True, cs) else if c = CHR ''+'' then (False, cs) else (False, s))"

definition pow10 :: "int \<Rightarrow> rat" where
  "pow10 e = (if 0 \<le> e then 10 ^ nat e else 1 / 10 ^ nat (- e))"

text \<open>The exponent part: empty, or \<open>e\<close> or \<open>E\<close>, an optional sign and at least one digit.\<close>

definition parse_exponent :: "string \<Rightarrow> int option" where
  "parse_exponent s =
     (case s of
        [] \<Rightarrow> Some 0
      | c # cs \<Rightarrow>
          if c = CHR ''e'' \<or> c = CHR ''E''
          then (case split_sign cs of
                  (neg, ds) \<Rightarrow>
                    if ds \<noteq> [] \<and> list_all is_digit ds
                    then Some (if neg then - int (digits_value ds) else int (digits_value ds))
                    else None)
          else None)"

text \<open>An unsigned decimal number: digits, an optional point and digits, an optional exponent.\<close>

definition parse_decimal :: "string \<Rightarrow> rat option" where
  "parse_decimal s =
     (let ip = takeWhile is_digit s;
          r1 = dropWhile is_digit s;
          fp = (case r1 of c # cs \<Rightarrow> if c = CHR ''.'' then takeWhile is_digit cs else [] | [] \<Rightarrow> []);
          r2 = (case r1 of c # cs \<Rightarrow> if c = CHR ''.'' then dropWhile is_digit cs else r1 | [] \<Rightarrow> [])
      in if ip = [] \<and> fp = [] then None
         else (case parse_exponent r2 of
                 None \<Rightarrow> None
               | Some e \<Rightarrow> Some (of_nat (digits_value (ip @ fp)) * pow10 (e - int (length fp)))))"

text \<open>
  \<open>float(s)\<close> for a string: whitespace around the number is ignored, then comes an
  optional sign and either \<open>inf\<close>, \<open>infinity\<close> or \<open>nan\<close> in any case, or a decimal number.
  Anything else raises \<open>ValueError\<close>.
\<close>

definition py_float :: "string \<Rightarrow> exn + pyfloat" where
  "py_float s =
     (case drop_underscores None (float_strip s) of
        None \<Rightarrow> Inl ValueError
      | Some t \<Rightarrow>
          (case split_sign t of
             (neg, body) \<Rightarrow>
               if map to_lower body = ''inf'' \<or> map to_lower body = ''infinity'' then Inr (Inf neg)
               else if map to_lower body = ''nan'' then Inr Nan
               else (case parse_decimal body of
                       None \<Rightarrow> Inl ValueError
                     | Some q \<Rightarrow> Inr (Finite (if neg then - q else q)))))"

section \<open>The parsed document and the queries the scraper makes on it\<close>

text \<open>
  The document that \<open>BeautifulSoup(content, "html.parser")\<close> builds: a tag has a name, its
  attributes and its children; a \<open>NavigableString\<close> is a piece of text. The document
  itself is a tag whose children are the top-level nodes.
\<close>

datatype node = NavigableString string | Tag string "(string \<times> string) list" "node list"

text \<open>All nodes below a node, in document order (the order \<open>find_all\<close> searches in).\<close>

fun descendants :: "node \<Rightarrow> node list" where
  "descendants (NavigableString s) = []"
| "descendants (Tag name attrs children) = concat (map (\<lambda>c. c # descendants c) children)"

text \<open>\<open>.text\<close>: all the text below a node, concatenated.\<close>

fun get_text :: "node \<Rightarrow> string" where
  "get_text (NavigableString s) = s"
| "get_text (Tag name attrs children) = concat (map get_text children)"

text \<open>
  The value of a \<open>class\<close> attribute is held as the list of its whitespace-separated
  tokens. \<open>cur\<close> is the token being read.
\<close>

fun tokens_from :: "string \<Rightarrow> string \<Rightarrow> string list" where
  "tokens_from cur [] = (if cur = [] then [] else [cur])"
| "tokens_from cur (c # cs) =
     (if py_isspace c
      then (if cur = [] then tokens_from [] cs else cur # tokens_from [] cs)
      else tokens_from (cur @ [c]) cs)"

definition class_tokens :: "string \<Rightarrow> string list" where
  "class_tokens v = tokens_from [] v"

fun py_join :: "string \<Rightarrow> string list \<Rightarrow> string" where
  "py_join sep [] = []"
| "py_join sep [x] = x"
| "py_join sep (x # y # ys) = x @ sep @ py_join sep (y # ys)"

text \<open>
  \<open>tag[key]\<close> for a string-valued attribute (\<open>title\<close>, \<open>href\<close>) and \<open>tag["class"]\<close>;
  a missing attribute raises \<open>KeyError\<close>.
\<close>

fun get_attr :: "node \<Rightarrow> string \<Rightarrow> exn + string" where
  "get_attr (NavigableString s) key = Inl TypeError"
| "get_attr (Tag name attrs children) key =
     (case map_of attrs key of None \<Rightarrow> Inl KeyError | Some v \<Rightarrow> Inr v)"

fun get_class :: "node \<Rightarrow> exn + string list" where
  "get_class (NavigableString s) = Inl TypeError"
| "get_class (Tag name attrs children) =
     (case map_of attrs ''class'' of None \<Rightarrow> Inl KeyError | Some v \<Rightarrow> Inr (class_tokens v))"

text \<open>
  Whether a node is selected by \<open>find_all(name, class_=cls)\<close>: it is a tag of that name
  and, when a class is asked for, one of its class tokens is \<open>cls\<close> or its tokens joined
  by single spaces are \<open>cls\<close>.
\<close>

fun matches :: "string \<Rightarrow> string option \<Rightarrow> node \<Rightarrow> bool" where
  "matches name cls (NavigableString s) = False"
| "matches name cls (Tag name' attrs children) =
     (name' = name \<and>
      (case cls of
         None \<Rightarrow> True
       | Some c \<Rightarrow>
           (case map_of attrs ''class'' of
              None \<Rightarrow> False
            | Some v \<Rightarrow> c \<in> set (class_tokens v) \<or> py_join '' '' (class_tokens v) = c)))"

definition find_all :: "node \<Rightarrow> string \<Rightarrow> string option \<Rightarrow> node list" where
  "find_all n name cls = filter (matches name cls) (descendants n)"

text \<open>\<open>find\<close> gives the first match or \<open>None\<close>; \<open>tag.h3\<close> is \<open>tag.find("h3")\<close>.\<close>

definition find_first :: "node \<Rightarrow> string \<Rightarrow> string option \<Rightarrow> node option" where
  "find_first n name cls = (case find_all n name cls of [] \<Rightarrow> None | x # xs \<Rightarrow> Some x)"

section \<open>The scraper\<close>

text \<open>
  The site: what \<open>requests.get(url)\<close> followed by \<open>BeautifulSoup(response.content,
  "html.parser")\<close> gives for a URL. \<open>None\<close>: the request raises; \<open>Some doc\<close>: the parsed
  content of the response, whatever its status code (the scraper does not look at it).
  A URL gives the same answer every time it is requested during a run.
\<close>

type_synonym site = "string \<Rightarrow> node option"

text \<open>
  The one effect of the scraper is the requests it sends. The state threaded through it
  is the list of the URLs requested so far, oldest first; a request that raises is logged
  too.
\<close>

definition requests_get :: "site \<Rightarrow> string \<Rightarrow> string list \<Rightarrow> (exn + node) \<times> string list" where
  "requests_get site url sent =
     (case site url of
        None \<Rightarrow> (Inl RequestException, sent @ [url])
      | Some doc \<Rightarrow> (Inr doc, sent @ [url]))"

definition page_url :: "nat \<Rightarrow> string" where
  "page_url page = ''http://books.toscrape.com/catalogue/page-'' @ str_of_nat page @ ''.html''"

text \<open>\<open>book.h3.a[key]\<close>: \<open>None.a\<close> raises \<open>AttributeError\<close>, \<open>None[key]\<close> raises \<open>TypeError\<close>.\<close>

definition h3_a_item :: "node \<Rightarrow> string \<Rightarrow> exn + string" where
  "h3_a_item book key =
     (case find_first book ''h3'' None of
        None \<Rightarrow> Inl AttributeError
      | Some h3 \<Rightarrow>
          (case find_first h3 ''a'' None of
             None \<Rightarrow> Inl TypeError
           | Some a \<Rightarrow> get_attr a key))"

text \<open>\<open>book.find("p", class_=cls).text\<close>\<close>

definition find_p_text :: "node \<Rightarrow> string \<Rightarrow> exn + string" where
  "find_p_text book cls =
     (case find_first book ''p'' (Some cls) of
        None \<Rightarrow> Inl AttributeError
      | Some p \<Rightarrow> Inr (get_text p))"

text \<open>\<open>book.p["class"][1]\<close>\<close>

definition rating_token :: "node \<Rightarrow> exn + string" where
  "rating_token book =
     (case find_first book ''p'' None of
        None \<Rightarrow> Inl TypeError
      | Some p \<Rightarrow>
          (case get_class p of
             Inl e \<Rightarrow> Inl e
           | Inr toks \<Rightarrow> if 1 < length toks then Inr (toks ! 1) else Inl IndexError))"

text \<open>
  The five values read from a listing entry, in the order the loop body reads them:
  title, price text, availability, rating token and the relative link.
\<close>

definition listing_fields :: "node \<Rightarrow> exn + (string \<times> string \<times> string \<times> string \<times> string)" where
  "listing_fields book =
     (case h3_a_item book ''title'' of
        Inl e \<Rightarrow> Inl e
      | Inr title \<Rightarrow>
     (case find_p_text book ''price_color'' of
        Inl e \<Rightarrow> Inl e
      | Inr price \<Rightarrow>
     (case find_p_text book ''instock availability'' of
        Inl e \<Rightarrow> Inl e
      | Inr availability \<Rightarrow>
     (case rating_token book of
        Inl e \<Rightarrow> Inl e
      | Inr rating \<Rightarrow>
     (case h3_a_item book ''href'' of
        Inl e \<Rightarrow> Inl e
      | Inr book_relative_url \<Rightarrow>
          Inr (title, price, py_strip availability, rating, book_relative_url))))))"

definition book_url :: "string \<Rightarrow> string" where
  "book_url book_relative_url =
     ''http://books.toscrape.com/catalogue/'' @ py_replace book_relative_url ''../../../'' []"

text \<open>\<open>book_soup.find("ul", class_="breadcrumb").find_all("li")[2].text.strip()\<close>\<close>

definition category_of :: "node \<Rightarrow> exn + string" where
  "category_of book_soup =
     (case find_first book_soup ''ul'' (Some ''breadcrumb'') of
        None \<Rightarrow> Inl AttributeError
      | Some ul \<Rightarrow>
          (let lis = find_all ul ''li'' None
           in if 2 < length lis then Inr (py_strip (get_text (lis ! 2))) else Inl IndexError))"

text \<open>
  One pass of the inner loop body up to the appends: the values of title, price (already
  a float), availability, rating and category, or the exception that ends the run.
\<close>

type_synonym book_values = "string \<times> pyfloat \<times> string \<times> string \<times> string"

definition scrape_book :: "site \<Rightarrow> node \<Rightarrow> string list \<Rightarrow> (exn + book_values) \<times> string list" where
  "scrape_book site book sent =
     (case listing_fields book of
        Inl e \<Rightarrow> (Inl e, sent)
      | Inr (title, price, availability, rating, book_relative_url) \<Rightarrow>
          (case requests_get site (book_url book_relative_url) sent of
             (Inl e, sent') \<Rightarrow> (Inl e, sent')
           | (Inr book_soup, sent') \<Rightarrow>
               (case category_of book_soup of
                  Inl e \<Rightarrow> (Inl e, sent')
                | Inr category \<Rightarrow>
                    (case py_float (drop 1 price) of
                       Inl e \<Rightarrow> (Inl e, sent')
                     | Inr p \<Rightarrow> (Inr (title, p, availability, rating, category), sent')))))"

text \<open>The five lists the loops append to.\<close>

record columns =
  titles :: "string list"
  prices :: "pyfloat list"
  availabilities :: "string list"
  ratings :: "string list"
  categories :: "string list"

definition no_columns :: columns where
  "no_columns = \<lparr>titles = [], prices = [], availabilities = [], ratings = [], categories = []\<rparr>"

fun append_values :: "columns \<Rightarrow> book_values \<Rightarrow> columns" where
  "append_values c (title, price, availability, rating, category) =
     \<lparr>titles = titles c @ [title], prices = prices c @ [price],
      availabilities = availabilities c @ [availability], ratings = ratings c @ [rating],
      categories = categories c @ [category]\<rparr>"

text \<open>\<open>for book in books\<close>\<close>

fun scrape_entries :: "site \<Rightarrow> node list \<Rightarrow> columns \<Rightarrow> string list \<Rightarrow> (exn + columns) \<times> string list" where
  "scrape_entries site [] c sent = (Inr c, sent)"
| "scrape_entries site (book # books) c sent =
     (case scrape_book site book sent of
        (Inl e, sent') \<Rightarrow> (Inl e, sent')
      | (Inr v, sent') \<Rightarrow> scrape_entries site books (append_values c v) sent')"

text \<open>\<open>for page in ...\<close>, over any list of page numbers.\<close>

fun scrape_pages :: "site \<Rightarrow> nat list \<Rightarrow> columns \<Rightarrow> string list \<Rightarrow> (exn + columns) \<times> string list" where
  "scrape_pages site [] c sent = (Inr c, sent)"
| "scrape_pages site (page # pages) c sent =
     (case requests_get site (page_url page) sent of
        (Inl e, sent') \<Rightarrow> (Inl e, sent')
      | (Inr soup, sent') \<Rightarrow>
          (case scrape_entries site (find_all soup ''article'' (Some ''product_pod'')) c sent' of
             (Inl e, sent'') \<Rightarrow> (Inl e, sent'')
           | (Inr c', sent'') \<Rightarrow> scrape_pages site pages c' sent''))"

text \<open>
  A data frame is its named columns in order. A cell holds a string, a float, an integer
  or the missing value (\<open>NaN\<close>).
\<close>

datatype cell = Str string | Float pyfloat | Integer int | Missing

type_synonym dataframe = "(string \<times> cell list) list"

definition DataFrame :: "columns \<Rightarrow> dataframe" where
  "DataFrame c =
     [(''Title'', map Str (titles c)),
      (''Price'', map Float (prices c)),
      (''Availability'', map Str (availabilities c)),
      (''Rating'', map Str (ratings c)),
      (''Category'', map Str (categories c))]"

text \<open>
  \<open>scrape_books()\<close>: pages 1 to 5, starting from empty lists; the result comes with the
  requests made. The caching decorators are left out: this is a call that computes.
\<close>

definition scrape_books :: "site \<Rightarrow> (exn + dataframe) \<times> string list" where
  "scrape_books site =
     (case scrape_pages site [1..<6] no_columns [] of
        (Inl e, sent) \<Rightarrow> (Inl e, sent)
      | (Inr c, sent) \<Rightarrow> (Inr (DataFrame c), sent))"

definition rating_map :: "(string \<times> int) list" where
  "rating_map = [(''One'', 1), (''Two'', 2), (''Three'', 3), (''Four'', 4), (''Five'', 5)]"

text \<open>\<open>Series.map(d)\<close> with a dict: a value that is not a key of the dict becomes missing.\<close>

fun map_cell :: "(string \<times> int) list \<Rightarrow> cell \<Rightarrow> cell" where
  "map_cell d (Str s) = (case map_of d s of None \<Rightarrow> Missing | Some n \<Rightarrow> Integer n)"
| "map_cell d v = Missing"

definition series_map :: "cell list \<Rightarrow> (string \<times> int) list \<Rightarrow> cell list" where
  "series_map col d = map (map_cell d) col"

text \<open>\<open>df[name] = col\<close>: the column is replaced in place, or added at the end.\<close>

fun setitem :: "dataframe \<Rightarrow> string \<Rightarrow> cell list \<Rightarrow> dataframe" where
  "setitem [] name col = [(name, col)]"
| "setitem ((name', col') # df) name col =
     (if name' = name then (name, col) # df else (name', col') # setitem df name col)"

definition load_data :: "site \<Rightarrow> (exn + dataframe) \<times> string list" where
  "load_data site =
     (case scrape_books site of
        (Inl e, sent) \<Rightarrow> (Inl e, sent)
      | (Inr df, sent) \<Rightarrow>
          (case map_of df ''Rating'' of
             None \<Rightarrow> (Inl KeyError, sent)
           | Some col \<Rightarrow> (Inr (setitem df ''Rating'' (series_map col rating_map)), sent)))"

section \<open>Notions used to state the properties\<close>

text \<open>
  The outcome of the loop body for one listing entry, and the requests it sends (none
  when a listing field cannot be read, otherwise the one for the detail page).
\<close>

definition book_result :: "site \<Rightarrow> node \<Rightarrow> exn + book_values" where
  "book_result site book = fst (scrape_book site book [])"

definition book_requests :: "node \<Rightarrow> string list" where
  "book_requests book =
     (case listing_fields book of
        Inl e \<Rightarrow> []
      | Inr (title, price, availability, rating, book_relative_url) \<Rightarrow> [book_url book_relative_url])"

text \<open>The listing entries of a page, in document order (none when the page cannot be fetched).\<close>

definition books_on :: "site \<Rightarrow> nat \<Rightarrow> node list" where
  "books_on site page =
     (case site (page_url page) of
        None \<Rightarrow> []
      | Some soup \<Rightarrow> find_all soup ''article'' (Some ''product_pod''))"

definition page_requests :: "site \<Rightarrow> nat \<Rightarrow> string list" where
  "page_requests site page = page_url page # concat (map book_requests (books_on site page))"

text \<open>
  The steps of a run in the order they are taken: fetching a page, then one step per
  entry of that page. Each step is given with the exception it raises, if any; the run
  ends at the first step that raises.
\<close>

definition failure :: "exn + 'a \<Rightarrow> exn option" where
  "failure r = (case r of Inl e \<Rightarrow> Some e | Inr v \<Rightarrow> None)"

fun first_failure :: "exn option list \<Rightarrow> exn option" where
  "first_failure [] = None"
| "first_failure (None # xs) = first_failure xs"
| "first_failure (Some e # xs) = Some e"

definition page_steps :: "site \<Rightarrow> nat \<Rightarrow> exn option list" where
  "page_steps site page =
     (case site (page_url page) of
        None \<Rightarrow> [Some RequestException]
      | Some soup \<Rightarrow>
          None # map (\<lambda>book. failure (book_result site book))
                   (find_all soup ''article'' (Some ''product_pod'')))"

definition run_steps :: "site \<Rightarrow> nat list \<Rightarrow> exn option list" where
  "run_steps site pages = concat (map (page_steps site) pages)"

text \<open>The frame whose rows are the given values, in that order.\<close>

definition frame_of :: "book_values list \<Rightarrow> dataframe" where
  "frame_of vs =
     [(''Title'', map (\<lambda>(title, price, availability, rating, category). Str title) vs),
      (''Price'', map (\<lambda>(title, price, availability, rating, category). Float price) vs),
      (''Availability'', map (\<lambda>(title, price, availability, rating, category). Str availability) vs),
      (''Rating'', map (\<lambda>(title, price, availability, rating, category). Str rating) vs),
      (''Category'', map (\<lambda>(title, price, availability, rating, category). Str category) vs)]"

definition column_names :: "exn + dataframe \<Rightarrow> string list" where
  "column_names r = (case r of Inl e \<Rightarrow> [] | Inr df \<Rightarrow> map fst df)"

text \<open>Whether \<open>old\<close> occurs in a string.\<close>

fun occurs :: "string \<Rightarrow> string \<Rightarrow> bool" where
  "occurs old [] = (old = [])"
| "occurs old (c # cs) = (take (length old) (c # cs) = old \<or> occurs old cs)"


section \<open>Sample sites\<close>

definition document :: "node list \<Rightarrow> node" where
  "document content = Tag ''[document]'' [] content"

text \<open>A listing entry and a detail page laid out as the site lays them out.\<close>

definition product_pod :: "string \<Rightarrow> string \<Rightarrow> string \<Rightarrow> string \<Rightarrow> string \<Rightarrow> node" where
  "product_pod href rating title price_text availability =
     Tag ''article'' [(''class'', ''product_pod'')]
       [Tag ''div'' [(''class'', ''image_container'')] [Tag ''a'' [(''href'', href)] []],
        Tag ''p'' [(''class'', ''star-rating '' @ rating)] [Tag ''i'' [(''class'', ''icon-star'')] []],
        Tag ''h3'' [] [Tag ''a'' [(''href'', href), (''title'', title)] [NavigableString title]],
        Tag ''div'' [(''class'', ''product_price'')]
          [Tag ''p'' [(''class'', ''price_color'')] [NavigableString price_text],
           Tag ''p'' [(''class'', ''instock availability'')]
             [Tag ''i'' [(''class'', ''icon-ok'')] [], NavigableString availability]]]"

definition breadcrumb :: "node list \<Rightarrow> node" where
  "breadcrumb items = document [Tag ''ul'' [(''class'', ''breadcrumb'')] items]"

definition detail_page :: "string \<Rightarrow> node" where
  "detail_page category =
     breadcrumb
       [Tag ''li'' [] [Tag ''a'' [(''href'', ''../index.html'')] [NavigableString ''Home'']],
        Tag ''li'' [] [Tag ''a'' [(''href'', ''../category/books_1/index.html'')] [NavigableString ''Books'']],
        Tag ''li'' [] [Tag ''a'' [(''href'', ''../category/index.html'')] [NavigableString category]],
        Tag ''li'' [(''class'', ''active'')] [NavigableString ''A book'']]"

definition in_stock :: string where
  "in_stock = CHR 0x0A # ''    In stock'' @ [CHR 0x0A]"

definition attic_pod :: node where
  "attic_pod =
     product_pod ''attic_1000/index.html'' ''Three'' ''A Light in the Attic'' (pound # ''51.77'') in_stock"

text \<open>
  A site of five listing pages: the given entries on page 1 and on page 2, none on pages
  3 to 5, and the given detail pages by URL.
\<close>

definition sample_site :: "node list \<Rightarrow> node list \<Rightarrow> (string \<times> node) list \<Rightarrow> site" where
  "sample_site first second details =
     map_of
       ([(''http://books.toscrape.com/catalogue/page-1.html'', document [Tag ''section'' [] first]),
         (''http://books.toscrape.com/catalogue/page-2.html'', document [Tag ''section'' [] second]),
         (''http://books.toscrape.com/catalogue/page-3.html'', document []),
         (''http://books.toscrape.com/catalogue/page-4.html'', document []),
         (''http://books.toscrape.com/catalogue/page-5.html'', document [])] @ details)"

definition attic_url :: string where
  "attic_url = ''http://books.toscrape.com/catalogue/attic_1000/index.html''"

definition attic_site :: site where
  "attic_site = sample_site [attic_pod] [] [(attic_url, detail_page ''Poetry'')]"

definition attic_frame :: dataframe where
  "attic_frame =
     [(''Title'', [Str ''A Light in the Attic'']),
      (''Price'', [Float (Finite (5177 / 100))]),
      (''Availability'', [Str ''In stock'']),
      (''Rating'', [Integer 3]),
      (''Category'', [Str ''Poetry''])]"



definition six_pod :: node where
  "six_pod =
     product_pod ''attic_1000/index.html'' ''Six'' ''A Light in the Attic'' (pound # ''51.77'') in_stock"

definition six_site :: site where
  "six_site = sample_site [six_pod] [] [(attic_url, detail_page ''Poetry'')]"

definition six_frame :: dataframe where
  "six_frame =
     [(''Title'', [Str ''A Light in the Attic'']),
      (''Price'', [Float (Finite (5177 / 100))]),
      (''Availability'', [Str ''In stock'']),
      (''Rating'', [Missing]),
      (''Category'', [Str ''Poetry''])]"

text \<open>
  The detail page cannot be fetched; it has no breadcrumb; its breadcrumb has two items;
  the first listing page has no entry and the second has one.
\<close>

definition broken_site :: site where
  "broken_site = sample_site [attic_pod] [] []"

definition bare_site :: site where
  "bare_site = sample_site [attic_pod] [] [(attic_url, document [])]"

definition short_site :: site where
  "short_site =
     sample_site [attic_pod] []
       [(attic_url,
         breadcrumb
           [Tag ''li'' [] [NavigableString ''Home''], Tag ''li'' [] [NavigableString ''Books'']])]"

definition late_site :: site where
  "late_site = sample_site [] [attic_pod] [(attic_url, detail_page ''Poetry'')]"

text \<open>Two listing pages of three entries each.\<close>

definition shelf_pod :: "string \<Rightarrow> node" where
  "shelf_pod name = product_pod (name @ ''.html'') ''Three'' name (pound # ''0.00'') in_stock"

definition shelf_url :: "string \<Rightarrow> string" where
  "shelf_url name = ''http://books.toscrape.com/catalogue/'' @ name @ ''.html''"

definition shelf_site :: site where
  "shelf_site =
     sample_site
       [shelf_pod ''p1b1'', shelf_pod ''p1b2'', shelf_pod ''p1b3'']
       [shelf_pod ''p2b1'', shelf_pod ''p2b2'', shelf_pod ''p2b3'']
       (map (\<lambda>name. (shelf_url name, detail_page ''Poetry''))
          [''p1b1'', ''p1b2'', ''p1b3'', ''p2b1'', ''p2b2'', ''p2b3''])"

definition shelf_values :: "string \<Rightarrow> book_values" where
  "shelf_values name = (name, Finite 0, ''In stock'', ''Three'', ''Poetry'')"

text \<open>Every listing URL gives the same page of one entry.\<close>

definition mirror_site :: site where
  "mirror_site =
     (\<lambda>url. if url = attic_url then Some (detail_page ''Poetry'')
            else Some (document [Tag ''section'' [] [attic_pod]]))"




section \<open>The loops\<close>

text \<open>
  The loop body does not depend on the requests sent so far, and adds its own to them.
\<close>

lemma scrape_book_eq:
  "scrape_book site book sent = (book_result site book, sent @ book_requests book)"
  unfolding scrape_book_def book_result_def book_requests_def requests_get_def
  by (auto split: sum.splits option.splits prod.splits)

lemma scrape_entries_ok:
  "scrape_entries site bs c sent = (Inr c', sent') \<Longrightarrow>
     \<exists>vs. map (book_result site) bs = map Inr vs \<and> c' = foldl append_values c vs \<and>
          sent' = sent @ concat (map book_requests bs)"
proof (induction bs arbitrary: c sent)
  case Nil
  then show ?case by simp
next
  case (Cons b bs)
  from Cons.prems obtain v where v: "book_result site b = Inr v"
    and rest: "scrape_entries site bs (append_values c v) (sent @ book_requests b) = (Inr c', sent')"
    by (auto simp: scrape_book_eq split: sum.splits)
  from Cons.IH [OF rest] obtain vs where
    "map (book_result site) bs = map Inr vs" "c' = foldl append_values (append_values c v) vs"
    "sent' = (sent @ book_requests b) @ concat (map book_requests bs)" by blast
  with v have "map (book_result site) (b # bs) = map Inr (v # vs) \<and> c' = foldl append_values c (v # vs) \<and>
          sent' = sent @ concat (map book_requests (b # bs))" by simp
  then show ?case by blast
qed

lemma scrape_entries_run:
  "map (book_result site) bs = map Inr vs \<Longrightarrow>
     scrape_entries site bs c sent = (Inr (foldl append_values c vs), sent @ concat (map book_requests bs))"
proof (induction bs arbitrary: c sent vs)
  case Nil
  then show ?case by simp
next
  case (Cons b bs)
  then obtain v vs' where "vs = v # vs'" "book_result site b = Inr v" "map (book_result site) bs = map Inr vs'"
    by (cases vs) auto
  with Cons.IH [of vs'] show ?case by (simp add: scrape_book_eq)
qed

lemma scrape_entries_failure:
  "failure (fst (scrape_entries site bs c sent)) = first_failure (map (\<lambda>b. failure (book_result site b)) bs)"
proof (induction bs arbitrary: c sent)
  case Nil
  then show ?case by (simp add: failure_def)
next
  case (Cons b bs)
  then show ?case by (cases "book_result site b") (simp_all add: scrape_book_eq failure_def)
qed

lemma first_failure_append:
  "first_failure (xs @ ys) = (case first_failure xs of None \<Rightarrow> first_failure ys | Some e \<Rightarrow> Some e)"
  by (induction xs rule: first_failure.induct) simp_all

lemma scrape_pages_ok:
  "scrape_pages site ps c sent = (Inr c', sent') \<Longrightarrow>
     (\<forall>p\<in>set ps. site (page_url p) \<noteq> None) \<and>
     (\<exists>vs. map (book_result site) (concat (map (books_on site) ps)) = map Inr vs \<and>
           c' = foldl append_values c vs) \<and>
     sent' = sent @ concat (map (page_requests site) ps)"
proof (induction ps arbitrary: c sent)
  case Nil
  then show ?case by simp
next
  case (Cons p ps)
  from Cons.prems obtain soup where soup: "site (page_url p) = Some soup"
    by (cases "site (page_url p)") (simp_all add: requests_get_def)
  obtain r sent1 where ent0:
    "scrape_entries site (find_all soup ''article'' (Some ''product_pod'')) c (sent @ [page_url p]) = (r, sent1)"
    by force
  from Cons.prems soup ent0 obtain c1 where r: "r = Inr c1"
    by (cases r) (simp_all add: requests_get_def)
  from ent0 r have ent:
    "scrape_entries site (find_all soup ''article'' (Some ''product_pod'')) c (sent @ [page_url p]) = (Inr c1, sent1)"
    by simp
  from Cons.prems soup ent have rest: "scrape_pages site ps c1 sent1 = (Inr c', sent')"
    by (simp add: requests_get_def)
  have bo: "books_on site p = find_all soup ''article'' (Some ''product_pod'')"
    by (simp add: books_on_def soup)
  from scrape_entries_ok [OF ent] obtain vs1 where
    vs1: "map (book_result site) (books_on site p) = map Inr vs1" "c1 = foldl append_values c vs1"
    "sent1 = (sent @ [page_url p]) @ concat (map book_requests (books_on site p))"
    by (auto simp: bo)
  from Cons.IH [OF rest] obtain vs2 where
    a: "\<forall>p\<in>set ps. site (page_url p) \<noteq> None"
    and vs2: "map (book_result site) (concat (map (books_on site) ps)) = map Inr vs2" "c' = foldl append_values c1 vs2"
    and s: "sent' = sent1 @ concat (map (page_requests site) ps)" by blast
  have "map (book_result site) (concat (map (books_on site) (p # ps))) = map Inr (vs1 @ vs2) \<and>
           c' = foldl append_values c (vs1 @ vs2)"
    using vs1 vs2 by simp
  moreover have "sent' = sent @ concat (map (page_requests site) (p # ps))"
    using s vs1 by (simp add: page_requests_def)
  ultimately have "\<exists>vs. map (book_result site) (concat (map (books_on site) (p # ps))) = map Inr vs \<and>
           c' = foldl append_values c vs" "sent' = sent @ concat (map (page_requests site) (p # ps))"
    by blast+
  moreover have "\<forall>q\<in>set (p # ps). site (page_url q) \<noteq> None" using a soup by simp
  ultimately show ?case by blast
qed

lemma scrape_pages_run:
  "\<forall>p\<in>set ps. site (page_url p) \<noteq> None \<Longrightarrow>
   map (book_result site) (concat (map (books_on site) ps)) = map Inr vs \<Longrightarrow>
     scrape_pages site ps c sent =
       (Inr (foldl append_values c vs), sent @ concat (map (page_requests site) ps))"
proof (induction ps arbitrary: c sent vs)
  case Nil
  then show ?case by simp
next
  case (Cons p ps)
  from Cons.prems obtain soup where soup: "site (page_url p) = Some soup" by auto
  have bo: "books_on site p = find_all soup ''article'' (Some ''product_pod'')"
    by (simp add: books_on_def soup)
  from Cons.prems(2) have
    "map Inr vs = map (book_result site) (books_on site p) @ map (book_result site) (concat (map (books_on site) ps))"
    by simp
  then obtain vs1 vs2 where vs: "vs = vs1 @ vs2"
    and 1: "map (book_result site) (books_on site p) = map Inr vs1"
    and 2: "map (book_result site) (concat (map (books_on site) ps)) = map Inr vs2"
    unfolding map_eq_append_conv by blast
  have 3: "\<forall>p\<in>set ps. site (page_url p) \<noteq> None" using Cons.prems(1) by simp
  show ?case
    using scrape_entries_run [OF 1, of c "sent @ [page_url p]"] Cons.IH [OF 3 2]
    by (simp add: requests_get_def soup bo [symmetric] page_requests_def vs)
qed

lemma scrape_pages_failure:
  "failure (fst (scrape_pages site ps c sent)) = first_failure (run_steps site ps)"
proof (induction ps arbitrary: c sent)
  case Nil
  then show ?case by (simp add: failure_def run_steps_def)
next
  case (Cons p ps)
  show ?case
  proof (cases "site (page_url p)")
    case None
    then show ?thesis by (simp add: requests_get_def failure_def run_steps_def page_steps_def)
  next
    case (Some soup)
    let ?bs = "find_all soup ''article'' (Some ''product_pod'')"
    obtain r s where ent: "scrape_entries site ?bs c (sent @ [page_url p]) = (r, s)" by force
    have f: "failure r = first_failure (map (\<lambda>b. failure (book_result site b)) ?bs)"
      using scrape_entries_failure [of site ?bs c "sent @ [page_url p]"] ent by simp
    show ?thesis
    proof (cases r)
      case (Inl e)
      with f [symmetric] ent Some show ?thesis
        by (simp add: requests_get_def run_steps_def page_steps_def first_failure_append failure_def)
    next
      case (Inr c1)
      with f [symmetric] ent Some Cons.IH [of c1 s] show ?thesis
        by (simp add: requests_get_def run_steps_def page_steps_def first_failure_append failure_def)
    qed
  qed
qed


lemma foldl_append_values:
  "titles (foldl append_values c vs) = titles c @ map (\<lambda>(title, price, availability, rating, category). title) vs"
  "prices (foldl append_values c vs) = prices c @ map (\<lambda>(title, price, availability, rating, category). price) vs"
  "availabilities (foldl append_values c vs) =
     availabilities c @ map (\<lambda>(title, price, availability, rating, category). availability) vs"
  "ratings (foldl append_values c vs) = ratings c @ map (\<lambda>(title, price, availability, rating, category). rating) vs"
  "categories (foldl append_values c vs) =
     categories c @ map (\<lambda>(title, price, availability, rating, category). category) vs"
  by (induction vs arbitrary: c; auto)+

lemma DataFrame_foldl: "DataFrame (foldl append_values no_columns vs) = frame_of vs"
  by (simp add: DataFrame_def frame_of_def foldl_append_values no_columns_def comp_def case_prod_unfold)

lemma scrape_books_ok:
  assumes "fst (scrape_books site) = Inr df"
  shows "\<exists>vs. map (book_result site) (concat (map (books_on site) [1..<6])) = map Inr vs \<and>
              df = frame_of vs"
    and "\<forall>p\<in>set [1..<6]. site (page_url p) \<noteq> None"
    and "snd (scrape_books site) = concat (map (page_requests site) [1..<6])"
proof -
  obtain r s where run: "scrape_pages site [1..<6] no_columns [] = (r, s)" by force
  with assms obtain c where r: "r = Inr c" and df: "df = DataFrame c"
    by (cases r) (auto simp: scrape_books_def)
  from scrape_pages_ok [OF run [unfolded r]] obtain vs where
    p: "\<forall>p\<in>set [1..<6]. site (page_url p) \<noteq> None"
    and vs: "map (book_result site) (concat (map (books_on site) [1..<6])) = map Inr vs"
      "c = foldl append_values no_columns vs"
    and s: "s = [] @ concat (map (page_requests site) [1..<6])" by blast
  from vs df show "\<exists>vs. map (book_result site) (concat (map (books_on site) [1..<6])) = map Inr vs \<and>
              df = frame_of vs"
    by (auto simp: DataFrame_foldl)
  from p show "\<forall>p\<in>set [1..<6]. site (page_url p) \<noteq> None" .
  from s run r show "snd (scrape_books site) = concat (map (page_requests site) [1..<6])"
    by (simp add: scrape_books_def)
qed

lemma scrape_books_run:
  assumes "\<forall>p\<in>set [1..<6]. site (page_url p) \<noteq> None"
    and "map (book_result site) (concat (map (books_on site) [1..<6])) = map Inr vs"
  shows "scrape_books site = (Inr (frame_of vs), concat (map (page_requests site) [1..<6]))"
  using scrape_pages_run [OF assms, of no_columns "[]"]
  by (simp add: scrape_books_def DataFrame_foldl)

lemma scrape_books_failure:
  "failure (fst (scrape_books site)) = first_failure (run_steps site [1..<6])"
proof -
  obtain r s where run: "scrape_pages site [1..<6] no_columns [] = (r, s)" by force
  then have "failure r = first_failure (run_steps site [1..<6])"
    using scrape_pages_failure [of site "[1..<6]" no_columns "[]"] by simp
  moreover have "failure (fst (scrape_books site)) = failure r"
    using run by (cases r) (simp_all add: scrape_books_def failure_def)
  ultimately show ?thesis by simp
qed

lemma failure_Some: "failure r = Some e \<longleftrightarrow> r = Inl e"
  by (cases r) (simp_all add: failure_def)

lemma failure_None: "failure r = None \<longleftrightarrow> (\<exists>v. r = Inr v)"
  by (cases r) (simp_all add: failure_def)

lemma first_failure_None:
  "first_failure xs = None \<longleftrightarrow> (\<forall>x\<in>set xs. x = None)"
  by (induction xs rule: first_failure.induct) simp_all

lemma run_steps_append: "run_steps site (ps @ qs) = run_steps site ps @ run_steps site qs"
  by (simp add: run_steps_def)

lemma run_steps_clean:
  assumes "\<forall>q\<in>set qs. site (page_url q) \<noteq> None"
    and "\<forall>b\<in>set (concat (map (books_on site) qs)). \<exists>v. book_result site b = Inr v"
  shows "first_failure (run_steps site qs) = None"
  using assms
  by (fastforce simp: first_failure_None run_steps_def page_steps_def books_on_def failure_def
      split: option.splits)

text \<open>
  A run that reaches an entry whose step raises ends with that exception: the pages up
  to its page are fetched, and the entries before it are read.
\<close>

lemma run_aborts_at:
  assumes page: "page \<in> set [1..<6]"
    and fetched: "\<forall>q\<in>set [1..<Suc page]. site (page_url q) \<noteq> None"
    and here: "books_on site page = before @ book # after"
    and earlier: "\<forall>b\<in>set (concat (map (books_on site) [1..<page]) @ before). \<exists>v. book_result site b = Inr v"
    and raises: "book_result site book = Inl e"
  shows "fst (scrape_books site) = Inl e"
proof -
  from page have "page = 1 \<or> page = 2 \<or> page = 3 \<or> page = 4 \<or> page = 5" by auto
  then have split: "[1..<6] = [1..<page] @ page # [Suc page..<6]"
    by (elim disjE) (simp_all add: upt_rec)
  have 1: "first_failure (run_steps site [1..<page]) = None"
    using fetched earlier by (intro run_steps_clean) auto
  from fetched page obtain soup where soup: "site (page_url page) = Some soup" by auto
  with here have bs: "find_all soup ''article'' (Some ''product_pod'') = before @ book # after"
    by (simp add: books_on_def)
  have "\<forall>b\<in>set before. failure (book_result site b) = None"
    using earlier by (simp add: failure_None)
  then have "first_failure (map (\<lambda>b. failure (book_result site b)) before) = None"
    by (simp add: first_failure_None)
  then have 2: "first_failure (page_steps site page) = Some e"
    using raises by (simp add: page_steps_def soup bs first_failure_append failure_def)
  have "first_failure (run_steps site [1..<6]) = Some e"
    unfolding split run_steps_append using 1 2
    by (simp add: first_failure_append run_steps_def)
  then have "failure (fst (scrape_books site)) = Some e" by (simp only: scrape_books_failure)
  then show ?thesis by (simp only: failure_Some)
qed

text \<open>
  The requests of a run: a request that raises is the last one sent, and the run then
  ends with that exception.
\<close>

lemma scrape_entries_requests:
  "scrape_entries site bs c sent = (r, sent') \<Longrightarrow>
     \<exists>new. sent' = sent @ new \<and> (\<forall>u\<in>set (butlast new). site u \<noteq> None) \<and>
           (\<forall>u\<in>set new. site u = None \<longrightarrow> r = Inl RequestException)"
proof (induction bs arbitrary: c sent)
  case Nil
  then show ?case by auto
next
  case (Cons b bs)
  show ?case
  proof (cases "listing_fields b")
    case (Inl e)
    with Cons.prems show ?thesis by (auto simp: scrape_book_def)
  next
    case (Inr fields)
    obtain title price availability rating rel where fields: "fields = (title, price, availability, rating, rel)"
      by (cases fields) auto
    show ?thesis
    proof (cases "site (book_url rel)")
      case None
      with Cons.prems Inr fields have "r = Inl RequestException" "sent' = sent @ [book_url rel]"
        by (auto simp: scrape_book_def requests_get_def)
      then show ?thesis by auto
    next
      case (Some soup)
      show ?thesis
      proof (cases "book_result site b")
        case (Inl e)
        with Cons.prems Inr fields Some have "r = Inl e" "sent' = sent @ [book_url rel]"
          by (auto simp: scrape_book_eq book_requests_def)
        with Some show ?thesis by auto
      next
        case v: (Inr v)
        with Cons.prems Inr fields
        have "scrape_entries site bs (append_values c v) (sent @ [book_url rel]) = (r, sent')"
          by (simp add: scrape_book_eq book_requests_def)
        from Cons.IH [OF this] obtain new where new: "sent' = (sent @ [book_url rel]) @ new"
          "\<forall>u\<in>set (butlast new). site u \<noteq> None" "\<forall>u\<in>set new. site u = None \<longrightarrow> r = Inl RequestException"
          by blast
        have "\<forall>u\<in>set (butlast (book_url rel # new)). site u \<noteq> None"
          using new(2) Some by (cases new) auto
        moreover have "\<forall>u\<in>set (book_url rel # new). site u = None \<longrightarrow> r = Inl RequestException"
          using new(3) Some by auto
        moreover have "sent' = sent @ (book_url rel # new)" using new(1) by simp
        ultimately show ?thesis by blast
      qed
    qed
  qed
qed

lemma butlast_append_set:
  "(\<forall>u\<in>set (butlast xs). P u) \<Longrightarrow> (\<forall>u\<in>set (butlast ys). P u) \<Longrightarrow> (ys \<noteq> [] \<longrightarrow> (\<forall>u\<in>set xs. P u)) \<Longrightarrow>
     \<forall>u\<in>set (butlast (xs @ ys)). P u"
  by (cases "ys = []") (auto simp: butlast_append)

lemma scrape_pages_requests:
  "scrape_pages site ps c sent = (r, sent') \<Longrightarrow>
     \<exists>new. sent' = sent @ new \<and> (\<forall>u\<in>set (butlast new). site u \<noteq> None) \<and>
           (\<forall>u\<in>set new. site u = None \<longrightarrow> r = Inl RequestException)"
proof (induction ps arbitrary: c sent)
  case Nil
  then show ?case by auto
next
  case (Cons p ps)
  show ?case
  proof (cases "site (page_url p)")
    case None
    with Cons.prems have "r = Inl RequestException" "sent' = sent @ [page_url p]"
      by (auto simp: requests_get_def)
    then show ?thesis by auto
  next
    case (Some soup)
    let ?bs = "find_all soup ''article'' (Some ''product_pod'')"
    obtain r1 s1 where ent: "scrape_entries site ?bs c (sent @ [page_url p]) = (r1, s1)" by force
    from scrape_entries_requests [OF ent] obtain new1 where new1: "s1 = (sent @ [page_url p]) @ new1"
      "\<forall>u\<in>set (butlast new1). site u \<noteq> None" "\<forall>u\<in>set new1. site u = None \<longrightarrow> r1 = Inl RequestException"
      by blast
    show ?thesis
    proof (cases r1)
      case (Inl e)
      with Cons.prems Some ent have "r = Inl e" "sent' = s1" by (auto simp: requests_get_def)
      with new1 Inl Some have "sent' = sent @ (page_url p # new1)"
        "\<forall>u\<in>set (butlast (page_url p # new1)). site u \<noteq> None"
        "\<forall>u\<in>set (page_url p # new1). site u = None \<longrightarrow> r = Inl RequestException"
        by (auto split: if_splits)
      then show ?thesis by blast
    next
      case (Inr c1)
      with Cons.prems Some ent have "scrape_pages site ps c1 s1 = (r, sent')"
        by (simp add: requests_get_def)
      from Cons.IH [OF this] obtain new2 where new2: "sent' = s1 @ new2"
        "\<forall>u\<in>set (butlast new2). site u \<noteq> None" "\<forall>u\<in>set new2. site u = None \<longrightarrow> r = Inl RequestException"
        by blast
      have ok1: "\<forall>u\<in>set (page_url p # new1). site u \<noteq> None"
        using new1(3) Inr Some by auto
      have "\<forall>u\<in>set (butlast ((page_url p # new1) @ new2)). site u \<noteq> None"
        using ok1 new2(2) by (intro butlast_append_set) (auto dest: in_set_butlastD)
      moreover have "\<forall>u\<in>set ((page_url p # new1) @ new2). site u = None \<longrightarrow> r = Inl RequestException"
        using ok1 new2(3) by auto
      moreover have "sent' = sent @ ((page_url p # new1) @ new2)" using new1(1) new2(1) by simp
      ultimately show ?thesis by blast
    qed
  qed
qed

lemma scrape_books_requests:
  "(\<forall>u\<in>set (butlast (snd (scrape_books site))). site u \<noteq> None) \<and>
   (\<forall>u\<in>set (snd (scrape_books site)). site u = None \<longrightarrow> fst (scrape_books site) = Inl RequestException)"
proof -
  obtain r s where run: "scrape_pages site [1..<6] no_columns [] = (r, s)" by force
  from scrape_pages_requests [OF run] have
    "\<forall>u\<in>set (butlast s). site u \<noteq> None" "\<forall>u\<in>set s. site u = None \<longrightarrow> r = Inl RequestException"
    by auto
  moreover have "snd (scrape_books site) = s" "r = Inl RequestException \<longrightarrow> fst (scrape_books site) = Inl RequestException"
    using run by (cases r; simp add: scrape_books_def)+
  ultimately show ?thesis by auto
qed

section \<open>Evaluating the builtins and the sample pages\<close>

lemmas float_defs = py_float_def float_strip_def float_isspace_def is_digit_def split_sign_def
  to_lower_def parse_decimal_def parse_exponent_def digits_value_def digit_val_def pow10_def

lemmas query_defs = find_first_def find_all_def class_tokens_def py_isspace_def

lemma py_float_51_77: "py_float ''51.77'' = Inr (Finite (5177 / 100))"
  by (simp add: float_defs)

lemma py_float_0_00: "py_float ''0.00'' = Inr (Finite 0)"
  by (simp add: float_defs)


lemma py_float_1_77: "py_float ''1.77'' = Inr (Finite (177 / 100))"
  by (simp add: float_defs)

lemma py_float_pound: "py_float (pound # ''51.77'') = Inl ValueError"
  by (simp add: float_defs pound_def)

lemma py_float_error: "py_float s = Inl e \<Longrightarrow> e = ValueError"
  by (auto simp: py_float_def split: option.splits prod.splits if_splits)

lemma py_float_space: "float_isspace w \<Longrightarrow> py_float (w # s) = py_float s"
  by (simp add: py_float_def float_strip_def)

lemma replace_from_absent: "\<not> occurs old s \<Longrightarrow> replace_from old new s = s"
  by (induction s) auto

lemma replace_from_prefix: "old \<noteq> [] \<Longrightarrow> replace_from old new (old @ s) = new @ replace_from old new s"
  by (cases old) simp_all

lemma book_url_plain:
  "\<not> occurs ''../../../'' rel \<Longrightarrow> book_url rel = ''http://books.toscrape.com/catalogue/'' @ rel"
  by (simp add: book_url_def py_replace_def replace_from_absent)

lemma book_result_eq:
  assumes "listing_fields book = Inr (title, price, availability, rating, rel)"
    and "site (book_url rel) = Some book_soup"
    and "category_of book_soup = Inr category"
  shows "book_result site book =
           (case py_float (drop 1 price) of
              Inl e \<Rightarrow> Inl e
            | Inr v \<Rightarrow> Inr (title, v, availability, rating, category))"
  using assms by (simp add: book_result_def scrape_book_def requests_get_def split: sum.splits)

lemma category_of_detail_page: "category_of (detail_page category) = Inr (py_strip category)"
  by (simp add: category_of_def detail_page_def breadcrumb_def document_def query_defs)

lemma py_strip_Poetry: "py_strip ''Poetry'' = ''Poetry''"
  by (simp add: py_strip_def py_isspace_def)

lemma py_strip_in_stock: "py_strip in_stock = ''In stock''"
  by (simp add: py_strip_def py_isspace_def in_stock_def)

lemma listing_fields_attic:
  "listing_fields (product_pod ''attic_1000/index.html'' ''Three'' ''A Light in the Attic'' price_text in_stock) =
     Inr (''A Light in the Attic'', price_text, ''In stock'', ''Three'', ''attic_1000/index.html'')"
  by (simp add: listing_fields_def product_pod_def h3_a_item_def find_p_text_def rating_token_def
      query_defs py_strip_in_stock)

lemma book_url_attic: "book_url ''attic_1000/index.html'' = attic_url"
  by (simp add: book_url_plain attic_url_def)

lemma attic_site_detail: "attic_site attic_url = Some (detail_page ''Poetry'')"
  by (simp add: attic_site_def sample_site_def attic_url_def)

lemma book_result_attic:
  "book_result attic_site
     (product_pod ''attic_1000/index.html'' ''Three'' ''A Light in the Attic'' (c # number) in_stock) =
     (case py_float number of
        Inl e \<Rightarrow> Inl e
      | Inr v \<Rightarrow> Inr (''A Light in the Attic'', v, ''In stock'', ''Three'', ''Poetry''))"
  using book_result_eq [where site = attic_site and book_soup = "detail_page ''Poetry''" and category = "''Poetry''",
      OF listing_fields_attic [of "c # number"]]
  by (simp add: book_url_attic attic_site_detail category_of_detail_page py_strip_Poetry)

section \<open>Price texts\<close>

text \<open>
  C10, as amended. The price is \<open>float(price[1:])\<close>: the first character of the price
  text is dropped whatever it is, and the rest is what \<open>float\<close> reads. So a price text
  made of any one character and a number gives that number, and so does one where
  whitespace follows the first character, since \<open>float\<close> ignores whitespace around the
  number: \<open>"\<pounds> 51.77"\<close> gives 51.77. A price text without a symbol loses its first digit
  (\<open>"51.77"\<close> gives 1.77), and a second symbol makes \<open>float\<close> raise.
\<close>

theorem first_character_dropped_unchecked:
  assumes "listing_fields book = Inr (title, c # number, availability, rating, rel)"
    and "site (book_url rel) = Some book_soup"
    and "category_of book_soup = Inr category"
  shows "book_result site book =
           (case py_float number of
              Inl e \<Rightarrow> Inl ValueError
            | Inr v \<Rightarrow> Inr (title, v, availability, rating, category)) \<and>
         (float_isspace w \<longrightarrow> py_float (drop 1 (c # w # number)) = py_float number) \<and>
         py_float (drop 1 ''$51.77'') = Inr (Finite (5177 / 100)) \<and>
         py_float (drop 1 ''X0.00'') = Inr (Finite 0) \<and>
         py_float (drop 1 (pound # '' 51.77'')) = Inr (Finite (5177 / 100)) \<and>
         py_float (drop 1 ''51.77'') = Inr (Finite (177 / 100)) \<and>
         py_float (drop 1 (pound # pound # ''51.77'')) = Inl ValueError"
proof -
  have "book_result site book =
           (case py_float number of
              Inl e \<Rightarrow> Inl ValueError
            | Inr v \<Rightarrow> Inr (title, v, availability, rating, category))"
    using assms book_result_eq [of book title "c # number" availability rating rel site book_soup category]
    by (auto split: sum.splits dest: py_float_error)
  moreover have "float_isspace w \<longrightarrow> py_float (drop 1 (c # w # number)) = py_float number"
    by (simp add: py_float_space)
  moreover have "py_float (drop 1 ''$51.77'') = Inr (Finite (5177 / 100))"
    by (simp add: py_float_51_77)
  moreover have "py_float (drop 1 ''X0.00'') = Inr (Finite 0)"
    by (simp add: py_float_0_00)
  moreover have "py_float (drop 1 (pound # '' 51.77'')) = Inr (Finite (5177 / 100))"
    by (simp add: py_float_space float_isspace_def py_float_51_77)
  moreover have "py_float (drop 1 ''51.77'') = Inr (Finite (177 / 100))"
    by (simp add: py_float_1_77)
  moreover have "py_float (drop 1 (pound # pound # ''51.77'')) = Inl ValueError"
    by (simp add: py_float_pound)
  ultimately show ?thesis by blast
qed

theorem first_character_dropped_unchecked_witness:
  "book_result attic_site
     (product_pod ''attic_1000/index.html'' ''Three'' ''A Light in the Attic'' ''$51.77'' in_stock) =
     Inr (''A Light in the Attic'', Finite (5177 / 100), ''In stock'', ''Three'', ''Poetry'') \<and>
   float_isspace CHR '' '' \<and> py_float (drop 1 (''$ 51.77'')) = py_float ''51.77''"
proof -
  have lf: "listing_fields (product_pod ''attic_1000/index.html'' ''Three'' ''A Light in the Attic'' ''$51.77'' in_stock) =
      Inr (''A Light in the Attic'', CHR ''$'' # ''51.77'', ''In stock'', ''Three'', ''attic_1000/index.html'')"
    by (rule listing_fields_attic)
  have st: "attic_site (book_url ''attic_1000/index.html'') = Some (detail_page ''Poetry'')"
    by (simp add: book_url_attic attic_site_detail)
  have cat: "category_of (detail_page ''Poetry'') = Inr ''Poetry''"
    by (simp add: category_of_detail_page py_strip_Poetry)
  have sp: "float_isspace CHR '' ''" by (simp add: float_isspace_def)
  from first_character_dropped_unchecked [where site = attic_site and w = "CHR '' ''", OF lf st cat] sp
  show ?thesis by (simp add: py_float_51_77)
qed

text \<open>
  C10 as stated fails: the price text \<open>"\<pounds> 51.77"\<close>, whose prefix is two characters long,
  still gives the displayed price 51.77.
\<close>

theorem longer_prefix_counterexample:
  "book_result attic_site
     (product_pod ''attic_1000/index.html'' ''Three'' ''A Light in the Attic'' (pound # '' 51.77'') in_stock) =
     Inr (''A Light in the Attic'', Finite (5177 / 100), ''In stock'', ''Three'', ''Poetry'')"
  by (simp add: book_result_attic py_float_space float_isspace_def py_float_51_77)

lemma replace_from_first:
  assumes "old \<noteq> []" "\<not> occurs old (before @ butlast old)"
  shows "replace_from old new (before @ old @ after) = before @ new @ replace_from old new after"
  using assms(2)
proof (induction before)
  case Nil
  then show ?case using assms(1) by (simp add: replace_from_prefix)
next
  case (Cons c before)
  have "(butlast old @ [last old]) @ after = old @ after"
    by (simp only: append_butlast_last_id [OF assms(1)])
  then have e: "old @ after = butlast old @ last old # after" by simp
  have n: "length old \<le> length (c # before @ butlast old)" using assms(1) by simp
  have "c # before @ old @ after = (c # before @ butlast old) @ (last old # after)"
    by (simp only: e append_Cons append_assoc)
  then have "take (length old) (c # before @ old @ after) =
      take (length old) ((c # before @ butlast old) @ (last old # after))" by (rule arg_cong)
  also have "\<dots> = take (length old) (c # before @ butlast old)"
    using n by (simp only: take_append) simp
  finally have "take (length old) (c # before @ old @ after) = take (length old) (c # before @ butlast old)" .
  with Cons.prems have t: "take (length old) (c # before @ old @ after) \<noteq> old" by simp
  from Cons.prems have "\<not> occurs old (before @ butlast old)" by simp
  from Cons.IH [OF this] t show ?case by simp
qed

lemma py_replace_ups: "py_replace s ''../../../'' new = replace_from ''../../../'' new s"
  by (simp add: py_replace_def)

section \<open>The URL of the detail page\<close>

text \<open>
  C6, as amended. The detail URL is the catalogue base path followed by the relative
  link with \<open>"../../../"\<close> removed wherever it occurs, from left to right, and not only at
  the start: the link up to the first occurrence is kept, the occurrence is dropped,
  and the rest is treated the same way. A link in which it does not occur is kept as it
  is, and a link that starts with it loses that prefix (and any later occurrence). This
  URL is the one requested for the entry.
\<close>

theorem detail_url_drops_every_occurrence:
  "(\<not> occurs ''../../../'' rel \<longrightarrow> book_url rel = ''http://books.toscrape.com/catalogue/'' @ rel) \<and>
   (\<not> occurs ''../../../'' (before @ ''../../..'') \<longrightarrow>
      book_url (before @ ''../../../'' @ rel) =
        ''http://books.toscrape.com/catalogue/'' @ before @ py_replace rel ''../../../'' []) \<and>
   book_url (''../../../'' @ rel) = ''http://books.toscrape.com/catalogue/'' @ py_replace rel ''../../../'' [] \<and>
   (listing_fields book = Inr (title, price, availability, rating, rel) \<longrightarrow>
      snd (scrape_book site book sent) = sent @ [book_url rel])"
proof -
  have "\<not> occurs ''../../../'' (before @ ''../../..'') \<longrightarrow>
      book_url (before @ ''../../../'' @ rel) =
        ''http://books.toscrape.com/catalogue/'' @ before @ py_replace rel ''../../../'' []"
    using replace_from_first [of "''../../../''" before "[]" rel]
    by (simp add: book_url_def py_replace_ups)
  moreover have "book_url (''../../../'' @ rel) =
      ''http://books.toscrape.com/catalogue/'' @ py_replace rel ''../../../'' []"
    using replace_from_prefix [of "''../../../''" "[]" rel]
    by (simp add: book_url_def py_replace_ups)
  moreover have "listing_fields book = Inr (title, price, availability, rating, rel) \<longrightarrow>
      snd (scrape_book site book sent) = sent @ [book_url rel]"
    by (simp add: scrape_book_eq book_requests_def)
  ultimately show ?thesis by (simp add: book_url_plain)
qed

theorem detail_url_drops_every_occurrence_witness:
  "book_url ''attic_1000/index.html'' = ''http://books.toscrape.com/catalogue/attic_1000/index.html'' \<and>
   book_url (''a/'' @ ''../../../'' @ ''b/../../../c'') = ''http://books.toscrape.com/catalogue/a/b/c'' \<and>
   snd (scrape_book attic_site attic_pod []) = [''http://books.toscrape.com/catalogue/attic_1000/index.html'']"
proof -
  have 1: "\<not> occurs ''../../../'' ''attic_1000/index.html''" by simp
  have 2: "\<not> occurs ''../../../'' (''a/'' @ ''../../..'')" by simp
  have 3: "listing_fields attic_pod =
      Inr (''A Light in the Attic'', pound # ''51.77'', ''In stock'', ''Three'', ''attic_1000/index.html'')"
    unfolding attic_pod_def by (rule listing_fields_attic)
  have 4: "py_replace ''b/../../../c'' ''../../../'' [] = ''b/c''" by (simp add: py_replace_def)
  from detail_url_drops_every_occurrence
    [of "''attic_1000/index.html''" "''a/''" attic_pod "''A Light in the Attic''" "pound # ''51.77''"
        "''In stock''" "''Three''" attic_site "[]"]
    detail_url_drops_every_occurrence [of "''b/../../../c''" "''a/''"]
    1 2 3 4
  show ?thesis by simp
qed

text \<open>
  C6 as stated fails: in \<open>"../../../x/../../../y"\<close> the second occurrence is removed too, so
  the rest of the link after the leading prefix is not kept as it is.
\<close>

theorem later_occurrence_counterexample:
  "book_url (''../../../'' @ ''x/../../../y'') = ''http://books.toscrape.com/catalogue/x/y'' \<and>
   book_url (''../../../'' @ ''x/../../../y'') \<noteq> ''http://books.toscrape.com/catalogue/'' @ ''x/../../../y''"
  by (simp add: book_url_def py_replace_def)

section \<open>The sample sites\<close>

lemma pages_1_6: "[1..<6] = [Suc 0, 2, 3, 4, 5]" "[Suc 0..<6] = [Suc 0, 2, 3, 4, 5]"
  by (simp_all add: upt_rec)

lemma page_urls:
  "page_url (Suc 0) = ''http://books.toscrape.com/catalogue/page-1.html''"
  "page_url 2 = ''http://books.toscrape.com/catalogue/page-2.html''"
  "page_url 3 = ''http://books.toscrape.com/catalogue/page-3.html''"
  "page_url 4 = ''http://books.toscrape.com/catalogue/page-4.html''"
  "page_url 5 = ''http://books.toscrape.com/catalogue/page-5.html''"
  by (simp_all add: page_url_def digit_char_def)

lemma matches_product_pod:
  "matches ''article'' (Some ''product_pod'') (product_pod href rating title price_text availability)"
  by (simp add: product_pod_def class_tokens_def py_isspace_def)

lemma no_pod_in_product_pod:
  "filter (matches ''article'' (Some ''product_pod''))
     (descendants (product_pod href rating title price_text availability)) = []"
  by (simp add: product_pod_def)

lemma find_all_pods:
  assumes "\<forall>b\<in>set pods. \<exists>href rating title price_text availability.
             b = product_pod href rating title price_text availability"
  shows "find_all (document [Tag ''section'' [] pods]) ''article'' (Some ''product_pod'') = pods"
proof -
  have "filter (matches ''article'' (Some ''product_pod'')) (concat (map (\<lambda>c. c # descendants c) pods)) = pods"
    using assms by (induction pods) (auto simp: matches_product_pod no_pod_in_product_pod)
  then show ?thesis by (simp add: find_all_def document_def)
qed

lemma sample_site_pages:
  "sample_site first second details (page_url (Suc 0)) = Some (document [Tag ''section'' [] first])"
  "sample_site first second details (page_url 2) = Some (document [Tag ''section'' [] second])"
  "sample_site first second details (page_url 3) = Some (document [])"
  "sample_site first second details (page_url 4) = Some (document [])"
  "sample_site first second details (page_url 5) = Some (document [])"
  by (simp_all add: sample_site_def page_urls)

lemma sample_site_fetched: "\<forall>q\<in>set [1..<6]. sample_site first second details (page_url q) \<noteq> None"
  by (simp add: pages_1_6 sample_site_pages)

lemma books_on_sample:
  assumes "\<forall>b\<in>set (first @ second). \<exists>href rating title price_text availability.
             b = product_pod href rating title price_text availability"
  shows "books_on (sample_site first second details) (Suc 0) = first"
    and "books_on (sample_site first second details) 2 = second"
    and "books_on (sample_site first second details) 3 = []"
    and "books_on (sample_site first second details) 4 = []"
    and "books_on (sample_site first second details) 5 = []"
  using assms
  by (simp_all add: books_on_def sample_site_pages find_all_pods) (simp_all add: find_all_def document_def)

lemma all_books_sample:
  assumes "\<forall>b\<in>set (first @ second). \<exists>href rating title price_text availability.
             b = product_pod href rating title price_text availability"
  shows "concat (map (books_on (sample_site first second details)) [1..<6]) = first @ second"
  by (simp add: pages_1_6 books_on_sample [OF assms])

lemma sample_site_attic_url: "sample_site first second ((attic_url, d) # details) attic_url = Some d"
  by (simp add: sample_site_def attic_url_def)

lemma load_data_failure: "fst (scrape_books site) = Inl e \<Longrightarrow> fst (load_data site) = Inl e"
  by (cases "scrape_books site") (simp add: load_data_def)

lemma pod_list:
  "\<forall>b\<in>set []. \<exists>href rating title price_text availability. b = product_pod href rating title price_text availability"
  "\<forall>b\<in>set [product_pod h r t p a]. \<exists>href rating title price_text availability.
      b = product_pod href rating title price_text availability"
  by simp_all blast

section \<open>Ratings and the frame of \<open>load_data\<close>\<close>

lemma load_data_frame_of:
  assumes "scrape_books site = (Inr (frame_of vs), sent)"
  shows "load_data site =
    (Inr [(''Title'', map (\<lambda>(title, price, availability, rating, category). Str title) vs),
          (''Price'', map (\<lambda>(title, price, availability, rating, category). Float price) vs),
          (''Availability'', map (\<lambda>(title, price, availability, rating, category). Str availability) vs),
          (''Rating'', map (\<lambda>(title, price, availability, rating, category). map_cell rating_map (Str rating)) vs),
          (''Category'', map (\<lambda>(title, price, availability, rating, category). Str category) vs)], sent)"
  using assms by (simp add: load_data_def frame_of_def series_map_def case_prod_unfold)

lemma rating_map_known:
  "map_cell rating_map (Str ''One'') = Integer 1"
  "map_cell rating_map (Str ''Two'') = Integer 2"
  "map_cell rating_map (Str ''Three'') = Integer 3"
  "map_cell rating_map (Str ''Four'') = Integer 4"
  "map_cell rating_map (Str ''Five'') = Integer 5"
  by (simp_all add: rating_map_def)

lemma rating_map_unknown:
  "s \<notin> {''One'', ''Two'', ''Three'', ''Four'', ''Five''} \<Longrightarrow> map_cell rating_map (Str s) = Missing"
  by (simp add: rating_map_def)

lemma scrape_books_frame:
  assumes "fst (scrape_books site) = Inr df"
  obtains vs where "df = frame_of vs" "scrape_books site = (Inr (frame_of vs), snd (scrape_books site))"
proof -
  from scrape_books_ok(1) [OF assms] obtain vs where "df = frame_of vs" by blast
  moreover from this assms have "scrape_books site = (Inr (frame_of vs), snd (scrape_books site))"
    by (metis prod.collapse)
  ultimately show ?thesis by (rule that)
qed

lemma one_book_run:
  assumes pod: "book = product_pod h r t p a"
    and fields: "listing_fields book = Inr (title, price, availability, rating, rel)"
    and result: "book_result (sample_site [book] [] details) book = Inr v"
  shows "scrape_books (sample_site [book] [] details) =
    (Inr (frame_of [v]), [page_url 1, book_url rel, page_url 2, page_url 3, page_url 4, page_url 5])"
proof -
  let ?site = "sample_site [book] [] details"
  have pods: "\<forall>b\<in>set ([book] @ []). \<exists>href rating title price_text availability.
             b = product_pod href rating title price_text availability"
    using pod by (simp add: pod_list)
  have all: "concat (map (books_on ?site) [1..<6]) = [book]"
    using all_books_sample [OF pods, of details] by simp
  have "map (book_result ?site) (concat (map (books_on ?site) [1..<6])) = map Inr [v]"
    unfolding all by (simp add: result)
  from scrape_books_run [OF sample_site_fetched this]
  have "scrape_books ?site = (Inr (frame_of [v]), concat (map (page_requests ?site) [1..<6]))" .
  moreover have "concat (map (page_requests ?site) [1..<6]) =
      [page_url 1, book_url rel, page_url 2, page_url 3, page_url 4, page_url 5]"
    unfolding pages_1_6
    by (simp add: page_requests_def books_on_sample [OF pods] book_requests_def fields)
  ultimately show ?thesis by simp
qed

lemma listing_fields_attic_pod:
  "listing_fields attic_pod =
     Inr (''A Light in the Attic'', pound # ''51.77'', ''In stock'', ''Three'', ''attic_1000/index.html'')"
  unfolding attic_pod_def by (rule listing_fields_attic)

lemma book_result_attic_pod:
  "book_result attic_site attic_pod =
     Inr (''A Light in the Attic'', Finite (5177 / 100), ''In stock'', ''Three'', ''Poetry'')"
  unfolding attic_pod_def by (simp add: book_result_attic py_float_51_77)

lemma scrape_books_attic:
  "scrape_books attic_site =
     (Inr (frame_of [(''A Light in the Attic'', Finite (5177 / 100), ''In stock'', ''Three'', ''Poetry'')]),
      [page_url 1, attic_url, page_url 2, page_url 3, page_url 4, page_url 5])"
proof -
  have pod: "attic_pod =
      product_pod ''attic_1000/index.html'' ''Three'' ''A Light in the Attic'' (pound # ''51.77'') in_stock"
    by (rule attic_pod_def)
  have res: "book_result (sample_site [attic_pod] [] [(attic_url, detail_page ''Poetry'')]) attic_pod =
      Inr (''A Light in the Attic'', Finite (5177 / 100), ''In stock'', ''Three'', ''Poetry'')"
    using book_result_attic_pod by (simp only: attic_site_def)
  from one_book_run [OF pod listing_fields_attic_pod res]
  show ?thesis by (simp only: attic_site_def book_url_attic)
qed

lemma listing_fields_six_pod:
  "listing_fields six_pod =
     Inr (''A Light in the Attic'', pound # ''51.77'', ''In stock'', ''Six'', ''attic_1000/index.html'')"
  by (simp add: six_pod_def listing_fields_def product_pod_def h3_a_item_def find_p_text_def rating_token_def
      query_defs py_strip_in_stock)

lemma scrape_books_six:
  "scrape_books six_site =
     (Inr (frame_of [(''A Light in the Attic'', Finite (5177 / 100), ''In stock'', ''Six'', ''Poetry'')]),
      [page_url 1, attic_url, page_url 2, page_url 3, page_url 4, page_url 5])"
proof -
  have pod: "six_pod =
      product_pod ''attic_1000/index.html'' ''Six'' ''A Light in the Attic'' (pound # ''51.77'') in_stock"
    by (rule six_pod_def)
  have "book_result six_site six_pod =
      Inr (''A Light in the Attic'', Finite (5177 / 100), ''In stock'', ''Six'', ''Poetry'')"
    using book_result_eq [where site = six_site and book_soup = "detail_page ''Poetry''" and category = "''Poetry''",
      OF listing_fields_six_pod]
    by (simp add: book_url_attic six_site_def sample_site_attic_url category_of_detail_page py_strip_Poetry
        py_float_51_77)
  then have res: "book_result (sample_site [six_pod] [] [(attic_url, detail_page ''Poetry'')]) six_pod =
      Inr (''A Light in the Attic'', Finite (5177 / 100), ''In stock'', ''Six'', ''Poetry'')"
    by (simp only: six_site_def)
  from one_book_run [OF pod listing_fields_six_pod res]
  show ?thesis by (simp only: six_site_def book_url_attic)
qed

text \<open>
  C2, as amended. The five rating words are mapped to 1 to 5. Any other word, such as
  \<open>"Six"\<close> or the empty string, is mapped to the missing value, and nothing is raised:
  whenever \<open>scrape_books\<close> returns a frame, \<open>load_data\<close> returns one too, whose Rating
  column holds the mapped value of each rating word, row by row.
\<close>

theorem rating_lookup_never_raises:
  "map_cell rating_map (Str ''One'') = Integer 1 \<and>
   map_cell rating_map (Str ''Two'') = Integer 2 \<and>
   map_cell rating_map (Str ''Three'') = Integer 3 \<and>
   map_cell rating_map (Str ''Four'') = Integer 4 \<and>
   map_cell rating_map (Str ''Five'') = Integer 5 \<and>
   (s \<notin> {''One'', ''Two'', ''Three'', ''Four'', ''Five''} \<longrightarrow> map_cell rating_map (Str s) = Missing) \<and>
   (fst (scrape_books site) = Inr df \<longrightarrow>
      (\<exists>vs df'. df = frame_of vs \<and> fst (load_data site) = Inr df' \<and>
         map_of df' ''Rating'' =
           Some (map (\<lambda>(title, price, availability, rating, category). map_cell rating_map (Str rating)) vs)))"
proof -
  have "fst (scrape_books site) = Inr df \<longrightarrow>
      (\<exists>vs df'. df = frame_of vs \<and> fst (load_data site) = Inr df' \<and>
         map_of df' ''Rating'' =
           Some (map (\<lambda>(title, price, availability, rating, category). map_cell rating_map (Str rating)) vs))"
  proof
    assume "fst (scrape_books site) = Inr df"
    then obtain vs where vs: "df = frame_of vs"
      and run: "scrape_books site = (Inr (frame_of vs), snd (scrape_books site))"
      by (rule scrape_books_frame)
    from load_data_frame_of [OF run] vs
    show "\<exists>vs df'. df = frame_of vs \<and> fst (load_data site) = Inr df' \<and>
         map_of df' ''Rating'' =
           Some (map (\<lambda>(title, price, availability, rating, category). map_cell rating_map (Str rating)) vs)"
      by (intro exI [of _ vs]) simp
  qed
  with rating_map_known rating_map_unknown [of s] show ?thesis by blast
qed

theorem rating_lookup_never_raises_witness:
  "''Six'' \<notin> {''One'', ''Two'', ''Three'', ''Four'', ''Five''} \<and>
   map_cell rating_map (Str ''Six'') = Missing \<and>
   (\<exists>vs df'. fst (scrape_books attic_site) = Inr (frame_of vs) \<and> fst (load_data attic_site) = Inr df' \<and>
      map_of df' ''Rating'' =
        Some (map (\<lambda>(title, price, availability, rating, category). map_cell rating_map (Str rating)) vs))"
proof -
  have six: "''Six'' \<notin> {''One'', ''Two'', ''Three'', ''Four'', ''Five''}" by simp
  have run: "fst (scrape_books attic_site) =
      Inr (frame_of [(''A Light in the Attic'', Finite (5177 / 100), ''In stock'', ''Three'', ''Poetry'')])"
    by (simp only: scrape_books_attic fst_conv)
  from rating_lookup_never_raises
    [of "''Six''" attic_site
        "frame_of [(''A Light in the Attic'', Finite (5177 / 100), ''In stock'', ''Three'', ''Poetry'')]"]
    six run
  have "map_cell rating_map (Str ''Six'') = Missing"
    and "\<exists>vs df'. frame_of [(''A Light in the Attic'', Finite (5177 / 100), ''In stock'', ''Three'', ''Poetry'')] = frame_of vs \<and>
        fst (load_data attic_site) = Inr df' \<and>
        map_of df' ''Rating'' =
        Some (map (\<lambda>(title, price, availability, rating, category). map_cell rating_map (Str rating)) vs)"
    by blast+
  with six run show ?thesis by metis
qed

text \<open>
  C2 as stated fails: with the rating word \<open>"Six"\<close> on the listing page, \<open>load_data\<close> raises
  nothing and returns a row whose rating is the missing value.
\<close>

theorem unknown_rating_counterexample: "fst (load_data six_site) = Inr six_frame"
  using load_data_frame_of [OF scrape_books_six]
  by (simp add: six_frame_def rating_map_def)

lemma pages_2_6: "[2..<6] = [2, 3, 4, 5::nat]"
  by (simp add: upt_rec)

lemma load_data_attic: "load_data attic_site =
    (Inr attic_frame, [page_url 1, attic_url, page_url 2, page_url 3, page_url 4, page_url 5])"
  using load_data_frame_of [OF scrape_books_attic] by (simp add: attic_frame_def rating_map_def)

text \<open>
  C4, as amended. \<open>load_data\<close> sends no request of its own and returns the frame of
  \<open>scrape_books\<close> with the same five columns in the same order: Title, Price, Availability
  and Category are unchanged, and only Rating is replaced, by its mapped values. No
  column is added or removed. The price is already a float in the frame of
  \<open>scrape_books\<close>, and neither frame has a column for the detail URL.
\<close>

theorem load_data_replaces_rating_only:
  assumes "fst (scrape_books site) = Inr df"
  shows "\<exists>df'. load_data site = (Inr df', snd (scrape_books site)) \<and>
           map fst df = [''Title'', ''Price'', ''Availability'', ''Rating'', ''Category''] \<and>
           map fst df' = map fst df \<and>
           (\<forall>name. name \<noteq> ''Rating'' \<longrightarrow> map_of df' name = map_of df name) \<and>
           (\<exists>col. map_of df ''Rating'' = Some col \<and> map_of df' ''Rating'' = Some (series_map col rating_map)) \<and>
           map_of df ''detail_url'' = None \<and> map_of df' ''detail_url'' = None \<and>
           (\<exists>prices. map_of df ''Price'' = Some (map Float prices) \<and>
                     map_of df' ''Price'' = Some (map Float prices))"
proof -
  from assms obtain vs where vs: "df = frame_of vs"
    and run: "scrape_books site = (Inr (frame_of vs), snd (scrape_books site))"
    by (rule scrape_books_frame)
  note ld = load_data_frame_of [OF run]
  let ?df' = "[(''Title'', map (\<lambda>(title, price, availability, rating, category). Str title) vs),
          (''Price'', map (\<lambda>(title, price, availability, rating, category). Float price) vs),
          (''Availability'', map (\<lambda>(title, price, availability, rating, category). Str availability) vs),
          (''Rating'', map (\<lambda>(title, price, availability, rating, category). map_cell rating_map (Str rating)) vs),
          (''Category'', map (\<lambda>(title, price, availability, rating, category). Str category) vs)]"
  have 1: "map fst df = [''Title'', ''Price'', ''Availability'', ''Rating'', ''Category'']"
    by (simp add: vs frame_of_def)
  have 2: "map fst ?df' = map fst df" by (simp add: vs frame_of_def)
  have 3: "\<forall>name. name \<noteq> ''Rating'' \<longrightarrow> map_of ?df' name = map_of df name"
    by (simp add: vs frame_of_def)
  have 4: "\<exists>col. map_of df ''Rating'' = Some col \<and> map_of ?df' ''Rating'' = Some (series_map col rating_map)"
    by (simp add: vs frame_of_def series_map_def case_prod_unfold)
  have 5: "map_of df ''detail_url'' = None \<and> map_of ?df' ''detail_url'' = None"
    by (simp add: vs frame_of_def)
  have 6: "\<exists>prices. map_of df ''Price'' = Some (map Float prices) \<and>
                     map_of ?df' ''Price'' = Some (map Float prices)"
    by (intro exI [of _ "map (\<lambda>(title, price, availability, rating, category). price) vs"])
      (simp add: vs frame_of_def case_prod_unfold comp_def)
  show ?thesis
  proof (intro exI [of _ ?df'] conjI)
    show "load_data site = (Inr ?df', snd (scrape_books site))" by (rule ld)
    show "map fst df = [''Title'', ''Price'', ''Availability'', ''Rating'', ''Category'']" by (rule 1)
    show "map fst ?df' = map fst df" by (rule 2)
    show "\<forall>name. name \<noteq> ''Rating'' \<longrightarrow> map_of ?df' name = map_of df name" by (rule 3)
    show "\<exists>col. map_of df ''Rating'' = Some col \<and> map_of ?df' ''Rating'' = Some (series_map col rating_map)"
      by (rule 4)
    show "map_of df ''detail_url'' = None" using 5 by (rule conjunct1)
    show "map_of ?df' ''detail_url'' = None" using 5 by (rule conjunct2)
    show "\<exists>prices. map_of df ''Price'' = Some (map Float prices) \<and>
                     map_of ?df' ''Price'' = Some (map Float prices)" by (rule 6)
  qed
qed

theorem load_data_replaces_rating_only_witness:
  "fst (scrape_books attic_site) =
     Inr (frame_of [(''A Light in the Attic'', Finite (5177 / 100), ''In stock'', ''Three'', ''Poetry'')]) \<and>
   (\<exists>df'. load_data attic_site = (Inr df', snd (scrape_books attic_site)) \<and>
      map fst df' = [''Title'', ''Price'', ''Availability'', ''Rating'', ''Category''] \<and>
      map_of df' ''Title'' = Some [Str ''A Light in the Attic''] \<and>
      map_of df' ''Price'' = Some [Float (Finite (5177 / 100))] \<and>
      map_of df' ''detail_url'' = None)"
proof -
  let ?df = "frame_of [(''A Light in the Attic'', Finite (5177 / 100), ''In stock'', ''Three'', ''Poetry'')]"
  have run: "fst (scrape_books attic_site) = Inr ?df"
    by (simp only: scrape_books_attic fst_conv)
  from load_data_replaces_rating_only [OF run]
  obtain df' where H: "load_data attic_site = (Inr df', snd (scrape_books attic_site)) \<and>
           map fst ?df = [''Title'', ''Price'', ''Availability'', ''Rating'', ''Category''] \<and>
           map fst df' = map fst ?df \<and>
           (\<forall>name. name \<noteq> ''Rating'' \<longrightarrow> map_of df' name = map_of ?df name) \<and>
           (\<exists>col. map_of ?df ''Rating'' = Some col \<and> map_of df' ''Rating'' = Some (series_map col rating_map)) \<and>
           map_of ?df ''detail_url'' = None \<and> map_of df' ''detail_url'' = None \<and>
           (\<exists>prices. map_of ?df ''Price'' = Some (map Float prices) \<and>
                     map_of df' ''Price'' = Some (map Float prices))" ..
  note a = H [THEN conjunct1]
  note h2 = H [THEN conjunct2]
  note h3 = h2 [THEN conjunct2]
  note h4 = h3 [THEN conjunct2]
  note h5 = h4 [THEN conjunct2]
  note h6 = h5 [THEN conjunct2]
  have b: "map fst df' = [''Title'', ''Price'', ''Availability'', ''Rating'', ''Category'']"
    using h2 [THEN conjunct1] h3 [THEN conjunct1] by (rule subst)
  have "''Title'' \<noteq> ''Rating''" by simp
  with h4 [THEN conjunct1] have "map_of df' ''Title'' = map_of ?df ''Title''" by (elim allE impE)
  also have "\<dots> = Some [Str ''A Light in the Attic'']" by (simp add: frame_of_def)
  finally have c: "map_of df' ''Title'' = Some [Str ''A Light in the Attic'']" .
  note d = h6 [THEN conjunct2, THEN conjunct1]
  from h6 [THEN conjunct2, THEN conjunct2] obtain prices where
    pr: "map_of ?df ''Price'' = Some (map Float prices) \<and> map_of df' ''Price'' = Some (map Float prices)" ..
  have "map_of ?df ''Price'' = Some [Float (Finite (5177 / 100))]" by (simp add: frame_of_def)
  with pr [THEN conjunct1] have "Some (map Float prices) = Some [Float (Finite (5177 / 100))]" by simp
  with pr [THEN conjunct2] have e: "map_of df' ''Price'' = Some [Float (Finite (5177 / 100))]" by simp
  show ?thesis
  proof (intro conjI exI [of _ df'])
    show "fst (scrape_books attic_site) = Inr ?df" by (rule run)
    show "load_data attic_site = (Inr df', snd (scrape_books attic_site))" by (rule a)
    show "map fst df' = [''Title'', ''Price'', ''Availability'', ''Rating'', ''Category'']" by (rule b)
    show "map_of df' ''Title'' = Some [Str ''A Light in the Attic'']" by (rule c)
    show "map_of df' ''Price'' = Some [Float (Finite (5177 / 100))]" by (rule e)
    show "map_of df' ''detail_url'' = None" by (rule d)
  qed
qed

text \<open>
  C4 as stated fails, on a record with a price and a rating word of the expected form:
  the frames have five columns before and after \<open>load_data\<close>, none of them for the detail
  URL, and the URL of the detail page, which was requested, is in no cell of the result.
\<close>

theorem no_detail_url_column_counterexample:
  "column_names (fst (scrape_books attic_site)) =
     [''Title'', ''Price'', ''Availability'', ''Rating'', ''Category''] \<and>
   column_names (fst (load_data attic_site)) =
     [''Title'', ''Price'', ''Availability'', ''Rating'', ''Category''] \<and>
   map_of attic_frame ''detail_url'' = None \<and>
   fst (load_data attic_site) = Inr attic_frame \<and>
   attic_url \<in> set (snd (load_data attic_site)) \<and>
   Str attic_url \<notin> set (concat (map snd attic_frame))"
  by (simp add: load_data_attic scrape_books_attic column_names_def frame_of_def attic_frame_def attic_url_def)

section \<open>One book, end to end\<close>

text \<open>
  C1, as amended. Take a site whose first listing page has exactly one entry, with title
  "A Light in the Attic", price text \<open>"\<pounds>51.77"\<close>, availability "In stock" and rating word
  "Three", whose detail page gives the category "Poetry", and whose listing pages 2 to 5
  (the scraper always visits five) are fetched and have no entry. Then \<open>load_data\<close>
  returns exactly one row: Title "A Light in the Attic", Price 51.77, Availability
  "In stock", Rating 3, Category "Poetry". The row has these five fields only; the
  resolved detail URL is requested, after the first listing page, but is not kept.
\<close>

theorem one_book_end_to_end:
  assumes "books_on site 1 = [book]"
    and "\<forall>p\<in>set [2..<6]. site (page_url p) \<noteq> None \<and> books_on site p = []"
    and "listing_fields book =
           Inr (''A Light in the Attic'', pound # ''51.77'', ''In stock'', ''Three'', rel)"
    and "site (book_url rel) = Some book_soup"
    and "category_of book_soup = Inr ''Poetry''"
  shows "load_data site =
           (Inr [(''Title'', [Str ''A Light in the Attic'']),
                 (''Price'', [Float (Finite (5177 / 100))]),
                 (''Availability'', [Str ''In stock'']),
                 (''Rating'', [Integer 3]),
                 (''Category'', [Str ''Poetry''])],
            [page_url 1, book_url rel, page_url 2, page_url 3, page_url 4, page_url 5])"
proof -
  let ?v = "(''A Light in the Attic'', Finite (5177 / 100), ''In stock'', ''Three'', ''Poetry'')"
  have first: "site (page_url 1) \<noteq> None"
    using assms(1) by (cases "site (page_url 1)") (simp_all add: books_on_def)
  have rest: "site (page_url 2) \<noteq> None" "site (page_url 3) \<noteq> None" "site (page_url 4) \<noteq> None"
    "site (page_url 5) \<noteq> None" "books_on site 2 = []" "books_on site 3 = []" "books_on site 4 = []"
    "books_on site 5 = []"
    using assms(2) unfolding pages_2_6 by simp_all
  have fetched: "\<forall>p\<in>set [1..<6]. site (page_url p) \<noteq> None"
    unfolding pages_1_6 using first rest by simp
  have books: "concat (map (books_on site) [1..<6]) = [book]"
    unfolding pages_1_6 using assms(1) rest by simp
  have "book_result site book = Inr ?v"
    using book_result_eq [where site = site, OF assms(3) assms(4) assms(5)]
    by (simp add: py_float_51_77)
  then have "map (book_result site) (concat (map (books_on site) [1..<6])) = map Inr [?v]"
    unfolding books by simp
  from scrape_books_run [OF fetched this]
  have "scrape_books site = (Inr (frame_of [?v]), concat (map (page_requests site) [1..<6]))" .
  moreover have "concat (map (page_requests site) [1..<6]) =
      [page_url 1, book_url rel, page_url 2, page_url 3, page_url 4, page_url 5]"
    unfolding pages_1_6 using assms(1) rest
    by (simp add: page_requests_def book_requests_def assms(3))
  ultimately have "scrape_books site =
      (Inr (frame_of [?v]), [page_url 1, book_url rel, page_url 2, page_url 3, page_url 4, page_url 5])"
    by simp
  from load_data_frame_of [OF this] show ?thesis by (simp add: rating_map_def)
qed

theorem one_book_end_to_end_witness:
  "load_data attic_site =
     (Inr [(''Title'', [Str ''A Light in the Attic'']),
           (''Price'', [Float (Finite (5177 / 100))]),
           (''Availability'', [Str ''In stock'']),
           (''Rating'', [Integer 3]),
           (''Category'', [Str ''Poetry''])],
      [page_url 1, attic_url, page_url 2, page_url 3, page_url 4, page_url 5])"
proof -
  have pods: "\<forall>b\<in>set ([attic_pod] @ []). \<exists>href rating title price_text availability.
             b = product_pod href rating title price_text availability"
    by (simp add: attic_pod_def pod_list)
  have 1: "books_on attic_site 1 = [attic_pod]"
    using books_on_sample(1) [OF pods] by (simp add: attic_site_def)
  have 2: "\<forall>p\<in>set [2..<6]. attic_site (page_url p) \<noteq> None \<and> books_on attic_site p = []"
    unfolding pages_2_6 using books_on_sample [OF pods]
    by (simp add: attic_site_def sample_site_pages)
  have 4: "attic_site (book_url ''attic_1000/index.html'') = Some (detail_page ''Poetry'')"
    by (simp add: book_url_attic attic_site_detail)
  have 5: "category_of (detail_page ''Poetry'') = Inr ''Poetry''"
    by (simp add: category_of_detail_page py_strip_Poetry)
  from one_book_end_to_end [where site = attic_site, OF 1 2 listing_fields_attic_pod 4 5]
  show ?thesis by (simp only: book_url_attic)
qed

text \<open>
  C1 as stated fails: the row has five fields, and the URL of the detail page, which
  was requested, is not among its values.
\<close>

theorem no_detail_url_in_row_counterexample:
  "fst (load_data attic_site) = Inr attic_frame \<and>
   map fst attic_frame = [''Title'', ''Price'', ''Availability'', ''Rating'', ''Category''] \<and>
   attic_url \<in> set (snd (load_data attic_site)) \<and>
   Str attic_url \<notin> set (concat (map snd attic_frame))"
  by (simp add: load_data_attic attic_frame_def attic_url_def)

section \<open>Requests\<close>

lemma load_data_requests: "snd (load_data site) = snd (scrape_books site)"
  by (cases "scrape_books site") (auto simp: load_data_def split: sum.splits option.splits)

lemma book_requests_ok: "book_result site book = Inr v \<Longrightarrow> length (book_requests book) = 1"
  by (cases "listing_fields book")
    (auto simp: book_result_def scrape_book_def book_requests_def split: prod.splits)

lemma map_Inr_results: "map f xs = map Inr vs \<Longrightarrow> \<forall>x\<in>set xs. \<exists>v. f x = Inr v"
  by (induction xs arbitrary: vs) auto

lemma length_concat_singletons: "\<forall>x\<in>set xs. length (f x) = 1 \<Longrightarrow> length (concat (map f xs)) = length xs"
  by (induction xs) auto

lemma attic_pods:
  "\<forall>b\<in>set ([attic_pod] @ []). \<exists>href rating title price_text availability.
      b = product_pod href rating title price_text availability"
  "\<forall>b\<in>set ([] @ [attic_pod]). \<exists>href rating title price_text availability.
      b = product_pod href rating title price_text availability"
  "\<forall>b\<in>set [attic_pod]. \<exists>href rating title price_text availability.
      b = product_pod href rating title price_text availability"
  by (simp_all add: attic_pod_def pod_list)

lemma scrape_books_broken:
  "scrape_books broken_site = (Inl RequestException, [page_url 1, attic_url])"
proof -
  have "book_result broken_site attic_pod = Inl RequestException"
    by (simp add: book_result_def scrape_book_def listing_fields_attic_pod requests_get_def book_url_attic
        broken_site_def sample_site_def attic_url_def)
  then show ?thesis
    unfolding scrape_books_def pages_1_6
    by (simp add: requests_get_def broken_site_def sample_site_pages find_all_pods [OF attic_pods(3)]
        scrape_book_eq book_requests_def listing_fields_attic_pod book_url_attic)
qed

text \<open>
  C5. If any request of a run raises, for a listing page or for a detail page, the run
  ends with that exception, in \<open>scrape_books\<close> and in \<open>load_data\<close>: the result is the
  exception and no frame. In the loop over the entries of a page, an entry whose detail
  page cannot be fetched ends the loop at once: the entries after it are not looked at
  and nothing more is requested.
\<close>

theorem request_failure_ends_run:
  "(url \<in> set (snd (scrape_books site)) \<and> site url = None \<longrightarrow>
      fst (scrape_books site) = Inl RequestException \<and> fst (load_data site) = Inl RequestException) \<and>
   (listing_fields book = Inr (title, price, availability, rating, rel) \<and> site (book_url rel) = None \<longrightarrow>
      scrape_entries site (book # books) c sent = (Inl RequestException, sent @ [book_url rel]))"
proof -
  have "fst (scrape_books site) = Inl RequestException \<and> fst (load_data site) = Inl RequestException"
    if "url \<in> set (snd (scrape_books site)) \<and> site url = None"
  proof -
    from that scrape_books_requests [of site] have "fst (scrape_books site) = Inl RequestException"
      by blast
    then show ?thesis by (simp add: load_data_failure)
  qed
  moreover have "scrape_entries site (book # books) c sent = (Inl RequestException, sent @ [book_url rel])"
    if "listing_fields book = Inr (title, price, availability, rating, rel) \<and> site (book_url rel) = None"
    using that by (simp add: scrape_book_def requests_get_def)
  ultimately show ?thesis by blast
qed

theorem request_failure_ends_run_witness:
  "attic_url \<in> set (snd (scrape_books broken_site)) \<and> broken_site attic_url = None \<and>
   fst (scrape_books broken_site) = Inl RequestException \<and>
   fst (load_data broken_site) = Inl RequestException \<and>
   scrape_entries broken_site [attic_pod, six_pod] no_columns [] = (Inl RequestException, [attic_url])"
proof -
  have 1: "attic_url \<in> set (snd (scrape_books broken_site))" by (simp add: scrape_books_broken)
  have 2: "broken_site attic_url = None"
    by (simp add: broken_site_def sample_site_def attic_url_def)
  have 3: "broken_site (book_url ''attic_1000/index.html'') = None"
    using 2 by (simp only: book_url_attic)
  from request_failure_ends_run
    [of attic_url broken_site attic_pod "''A Light in the Attic''" "pound # ''51.77''" "''In stock''" "''Three''"
        "''attic_1000/index.html''" "[six_pod]" no_columns "[]"]
    1 2 3 listing_fields_attic_pod
  show ?thesis by (simp add: book_url_attic)
qed

text \<open>
  C9. A run that returns a frame has sent, in this order, one request per listing page 1
  to 5, each followed by one request per entry of that page: five plus the number of
  entries in all, which is 5 \<times> (1 + n) when every page has n entries. In any run, a
  request that raises is the last one sent. \<open>load_data\<close> sends no request of its own.
  The requests are the only effect in the model; the source writes nowhere.
\<close>

theorem requests_of_a_run:
  "(fst (scrape_books site) = Inr df \<longrightarrow>
      snd (scrape_books site) = concat (map (page_requests site) [1..<6]) \<and>
      (\<forall>page\<in>set [1..<6]. length (page_requests site page) = 1 + length (books_on site page)) \<and>
      length (snd (scrape_books site)) = 5 + length (concat (map (books_on site) [1..<6])) \<and>
      (\<forall>n. (\<forall>page\<in>set [1..<6]. length (books_on site page) = n) \<longrightarrow>
           length (snd (scrape_books site)) = 5 * (1 + n))) \<and>
   (\<forall>i. i < length (snd (scrape_books site)) \<and> site (snd (scrape_books site) ! i) = None \<longrightarrow>
        Suc i = length (snd (scrape_books site))) \<and>
   snd (load_data site) = snd (scrape_books site)"
proof -
  have ok: "snd (scrape_books site) = concat (map (page_requests site) [1..<6]) \<and>
      (\<forall>page\<in>set [1..<6]. length (page_requests site page) = 1 + length (books_on site page)) \<and>
      length (snd (scrape_books site)) = 5 + length (concat (map (books_on site) [1..<6])) \<and>
      (\<forall>n. (\<forall>page\<in>set [1..<6]. length (books_on site page) = n) \<longrightarrow>
           length (snd (scrape_books site)) = 5 * (1 + n))"
    if run: "fst (scrape_books site) = Inr df"
  proof -
    from scrape_books_ok(1) [OF run] obtain vs where
      "map (book_result site) (concat (map (books_on site) [1..<6])) = map Inr vs" by blast
    then have all: "\<forall>b\<in>set (concat (map (books_on site) [1..<6])). \<exists>v. book_result site b = Inr v"
      by (rule map_Inr_results)
    have one: "length (page_requests site page) = 1 + length (books_on site page)"
      if "page \<in> set [1..<6]" for page
    proof -
      have "length (book_requests b) = 1" if "b \<in> set (books_on site page)" for b
      proof -
        from that \<open>page \<in> set [1..<6]\<close> have "b \<in> set (concat (map (books_on site) [1..<6]))"
          by (auto intro!: bexI [of _ page])
        with all obtain v where "book_result site b = Inr v" by blast
        then show ?thesis by (rule book_requests_ok)
      qed
      then have "\<forall>b\<in>set (books_on site page). length (book_requests b) = 1" by blast
      then show ?thesis by (simp add: page_requests_def length_concat_singletons)
    qed
    have sent: "snd (scrape_books site) = concat (map (page_requests site) [1..<6])"
      by (rule scrape_books_ok(3) [OF run])
    have len: "length (snd (scrape_books site)) = 5 + length (concat (map (books_on site) [1..<6]))"
      unfolding sent pages_1_6 using one unfolding pages_1_6 by simp
    have "length (snd (scrape_books site)) = 5 * (1 + n)"
      if "\<forall>page\<in>set [1..<6]. length (books_on site page) = n" for n
      using that unfolding len pages_1_6 by simp
    with sent one len show ?thesis by blast
  qed
  have last: "Suc i = length (snd (scrape_books site))"
    if "i < length (snd (scrape_books site)) \<and> site (snd (scrape_books site) ! i) = None" for i
  proof (rule ccontr)
    assume "Suc i \<noteq> length (snd (scrape_books site))"
    with that have i: "i < length (butlast (snd (scrape_books site)))" by auto
    then have "butlast (snd (scrape_books site)) ! i \<in> set (butlast (snd (scrape_books site)))"
      by (rule nth_mem)
    moreover have "butlast (snd (scrape_books site)) ! i = snd (scrape_books site) ! i"
      using i by (rule nth_butlast)
    ultimately show False using that scrape_books_requests [of site] by auto
  qed
  from ok last load_data_requests [of site] show ?thesis by blast
qed

lemma books_on_mirror: "books_on mirror_site page = [attic_pod]"
proof -
  have "page_url page \<noteq> attic_url" by (simp add: page_url_def attic_url_def)
  then show ?thesis
    by (simp add: books_on_def mirror_site_def find_all_pods [OF attic_pods(3)])
qed

lemma book_result_mirror:
  "book_result mirror_site attic_pod =
     Inr (''A Light in the Attic'', Finite (5177 / 100), ''In stock'', ''Three'', ''Poetry'')"
  using book_result_eq [where site = mirror_site and book_soup = "detail_page ''Poetry''" and category = "''Poetry''",
      OF listing_fields_attic_pod]
  by (simp add: book_url_attic mirror_site_def category_of_detail_page py_strip_Poetry py_float_51_77)

lemma scrape_books_mirror:
  "fst (scrape_books mirror_site) =
     Inr (frame_of (replicate 5 (''A Light in the Attic'', Finite (5177 / 100), ''In stock'', ''Three'', ''Poetry'')))"
proof -
  let ?v = "(''A Light in the Attic'', Finite (5177 / 100), ''In stock'', ''Three'', ''Poetry'')"
  have "\<forall>p\<in>set [1..<6]. mirror_site (page_url p) \<noteq> None" by (simp add: mirror_site_def)
  moreover have "map (book_result mirror_site) (concat (map (books_on mirror_site) [1..<6])) =
      map Inr (replicate 5 ?v)"
    unfolding pages_1_6 by (simp add: books_on_mirror book_result_mirror numeral_eq_Suc)
  ultimately show ?thesis by (simp only: scrape_books_run fst_conv)
qed

theorem requests_of_a_run_witness:
  "fst (scrape_books mirror_site) =
     Inr (frame_of (replicate 5 (''A Light in the Attic'', Finite (5177 / 100), ''In stock'', ''Three'', ''Poetry''))) \<and>
   map (\<lambda>page. length (books_on mirror_site page)) [1..<6] = [1, 1, 1, 1, 1] \<and>
   length (snd (scrape_books mirror_site)) = 5 * (1 + 1) \<and>
   1 < length (snd (scrape_books broken_site)) \<and>
   broken_site (snd (scrape_books broken_site) ! 1) = None \<and>
   Suc 1 = length (snd (scrape_books broken_site))"
proof -
  have uniform: "\<forall>page\<in>set [1..<6]. length (books_on mirror_site page) = 1"
    by (simp add: books_on_mirror)
  have i: "1 < length (snd (scrape_books broken_site))" by (simp add: scrape_books_broken)
  have "snd (scrape_books broken_site) ! 1 = attic_url" by (simp add: scrape_books_broken)
  moreover have "broken_site attic_url = None"
    by (simp add: broken_site_def sample_site_def attic_url_def)
  ultimately have none: "broken_site (snd (scrape_books broken_site) ! 1) = None" by simp
  from requests_of_a_run [of mirror_site _] scrape_books_mirror uniform
  have "length (snd (scrape_books mirror_site)) = 5 * (1 + 1)" by blast
  moreover from requests_of_a_run [of broken_site] i none
  have "Suc 1 = length (snd (scrape_books broken_site))" by blast
  moreover have "map (\<lambda>page. length (books_on mirror_site page)) [1..<6] = [1, 1, 1, 1, 1]"
    unfolding pages_1_6 by (simp add: books_on_mirror)
  ultimately show ?thesis using scrape_books_mirror i none by blast
qed

section \<open>Order of the rows\<close>

lemma listing_fields_three:
  "listing_fields (product_pod href ''Three'' title price_text in_stock) =
     Inr (title, price_text, ''In stock'', ''Three'', href)"
  by (simp add: listing_fields_def product_pod_def h3_a_item_def find_p_text_def rating_token_def
      query_defs py_strip_in_stock)

lemma shelf_book_result:
  assumes "name \<in> {''p1b1'', ''p1b2'', ''p1b3'', ''p2b1'', ''p2b2'', ''p2b3''}"
  shows "book_result shelf_site (shelf_pod name) = Inr (shelf_values name)"
    and "book_requests (shelf_pod name) = [shelf_url name]"
proof -
  have lf: "listing_fields (shelf_pod name) =
      Inr (name, pound # ''0.00'', ''In stock'', ''Three'', name @ ''.html'')"
    unfolding shelf_pod_def by (rule listing_fields_three)
  have url: "book_url (name @ ''.html'') = shelf_url name"
    using assms by (elim insertE emptyE) (simp_all add: book_url_def py_replace_def shelf_url_def)
  have "shelf_site (shelf_url name) = Some (detail_page ''Poetry'')"
    using assms
    by (elim insertE emptyE) (simp_all add: shelf_site_def sample_site_def shelf_url_def)
  with url have st: "shelf_site (book_url (name @ ''.html'')) = Some (detail_page ''Poetry'')"
    by simp
  have cat: "category_of (detail_page ''Poetry'') = Inr ''Poetry''"
    by (simp add: category_of_detail_page py_strip_Poetry)
  from book_result_eq [where site = shelf_site, OF lf st cat]
  show "book_result shelf_site (shelf_pod name) = Inr (shelf_values name)"
    by (simp add: py_float_0_00 shelf_values_def)
  from lf url show "book_requests (shelf_pod name) = [shelf_url name]"
    by (simp add: book_requests_def)
qed

lemma shelf_pods:
  "\<forall>b\<in>set ([shelf_pod ''p1b1'', shelf_pod ''p1b2'', shelf_pod ''p1b3''] @
             [shelf_pod ''p2b1'', shelf_pod ''p2b2'', shelf_pod ''p2b3'']).
     \<exists>href rating title price_text availability. b = product_pod href rating title price_text availability"
  unfolding shelf_pod_def by simp blast

lemma shelf_books:
  "concat (map (books_on shelf_site) [1..<6]) =
     map shelf_pod [''p1b1'', ''p1b2'', ''p1b3'', ''p2b1'', ''p2b2'', ''p2b3'']"
  using all_books_sample [OF shelf_pods] by (simp add: shelf_site_def)

lemma scrape_books_shelf:
  "fst (scrape_books shelf_site) =
     Inr (frame_of (map shelf_values [''p1b1'', ''p1b2'', ''p1b3'', ''p2b1'', ''p2b2'', ''p2b3'']))"
proof -
  have "\<forall>p\<in>set [1..<6]. shelf_site (page_url p) \<noteq> None"
    unfolding shelf_site_def by (rule sample_site_fetched)
  moreover have "map (book_result shelf_site) (concat (map (books_on shelf_site) [1..<6])) =
      map Inr (map shelf_values [''p1b1'', ''p1b2'', ''p1b3'', ''p2b1'', ''p2b2'', ''p2b3''])"
    unfolding shelf_books by (simp add: shelf_book_result)
  ultimately show ?thesis by (simp only: scrape_books_run fst_conv)
qed

text \<open>
  C7. When a run returns a frame, take the entries of listing pages 1 to 5, page after
  page and in document order within a page. Every one of them has its values, and the
  rows of the frame are these values in this order. For two pages of three entries each
  the rows are those of the three entries of page 1 and then of the three of page 2.
\<close>

theorem rows_in_traversal_order:
  assumes "fst (scrape_books site) = Inr df"
  shows "\<exists>vs. map (book_result site) (concat (map (books_on site) [1..<6])) = map Inr vs \<and>
              df = frame_of vs \<and>
              concat (map (books_on site) [1..<6]) =
                books_on site 1 @ books_on site 2 @ books_on site 3 @ books_on site 4 @ books_on site 5"
proof -
  from scrape_books_ok(1) [OF assms] obtain vs where
    "map (book_result site) (concat (map (books_on site) [1..<6])) = map Inr vs \<and> df = frame_of vs" ..
  moreover have "concat (map (books_on site) [1..<6]) =
      books_on site 1 @ books_on site 2 @ books_on site 3 @ books_on site 4 @ books_on site 5"
    unfolding pages_1_6 by simp
  ultimately show ?thesis by (intro exI [of _ vs]) simp
qed

theorem rows_in_traversal_order_witness:
  "fst (scrape_books shelf_site) =
     Inr (frame_of (map shelf_values [''p1b1'', ''p1b2'', ''p1b3'', ''p2b1'', ''p2b2'', ''p2b3''])) \<and>
   (\<exists>vs. map (book_result shelf_site) (map shelf_pod [''p1b1'', ''p1b2'', ''p1b3'', ''p2b1'', ''p2b2'', ''p2b3'']) =
            map Inr vs \<and>
         frame_of (map shelf_values [''p1b1'', ''p1b2'', ''p1b3'', ''p2b1'', ''p2b2'', ''p2b3'']) = frame_of vs) \<and>
   map_of (frame_of (map shelf_values [''p1b1'', ''p1b2'', ''p1b3'', ''p2b1'', ''p2b2'', ''p2b3''])) ''Title'' =
     Some [Str ''p1b1'', Str ''p1b2'', Str ''p1b3'', Str ''p2b1'', Str ''p2b2'', Str ''p2b3'']"
proof -
  let ?names = "[''p1b1'', ''p1b2'', ''p1b3'', ''p2b1'', ''p2b2'', ''p2b3'']"
  from rows_in_traversal_order [OF scrape_books_shelf]
  obtain vs where H: "map (book_result shelf_site) (concat (map (books_on shelf_site) [1..<6])) = map Inr vs \<and>
      frame_of (map shelf_values ?names) = frame_of vs \<and>
      concat (map (books_on shelf_site) [1..<6]) =
        books_on shelf_site 1 @ books_on shelf_site 2 @ books_on shelf_site 3 @ books_on shelf_site 4 @
        books_on shelf_site 5" ..
  from H [THEN conjunct1] have 1: "map (book_result shelf_site) (map shelf_pod ?names) = map Inr vs"
    by (simp only: shelf_books)
  note 2 = H [THEN conjunct2, THEN conjunct1]
  have 3: "map_of (frame_of (map shelf_values ?names)) ''Title'' =
     Some [Str ''p1b1'', Str ''p1b2'', Str ''p1b3'', Str ''p2b1'', Str ''p2b2'', Str ''p2b3'']"
    by (simp add: frame_of_def shelf_values_def)
  show ?thesis
  proof (intro conjI exI [of _ vs])
    show "fst (scrape_books shelf_site) = Inr (frame_of (map shelf_values ?names))"
      by (rule scrape_books_shelf)
    show "map (book_result shelf_site) (map shelf_pod ?names) = map Inr vs" by (rule 1)
    show "frame_of (map shelf_values ?names) = frame_of vs" by (rule 2)
    show "map_of (frame_of (map shelf_values ?names)) ''Title'' =
     Some [Str ''p1b1'', Str ''p1b2'', Str ''p1b3'', Str ''p2b1'', Str ''p2b2'', Str ''p2b3'']"
      by (rule 3)
  qed
qed

section \<open>Pages that are not laid out as expected\<close>

lemma book_result_detail:
  assumes "listing_fields book = Inr (title, price, availability, rating, rel)"
    and "site (book_url rel) = Some book_soup"
  shows "find_first book_soup ''ul'' (Some ''breadcrumb'') = None \<Longrightarrow>
           book_result site book = Inl AttributeError"
    and "find_first book_soup ''ul'' (Some ''breadcrumb'') = Some ul \<Longrightarrow>
           length (find_all ul ''li'' None) < 3 \<Longrightarrow> book_result site book = Inl IndexError"
  using assms
  by (simp_all add: book_result_def scrape_book_def requests_get_def category_of_def)

lemma scrape_pages_no_entry:
  assumes "site (page_url page) = Some soup" "find_all soup ''article'' (Some ''product_pod'') = []"
  shows "scrape_pages site (page # pages) c sent = scrape_pages site pages c (sent @ [page_url page])"
  using assms by (simp add: requests_get_def)

lemma book_result_late:
  "book_result late_site attic_pod =
     Inr (''A Light in the Attic'', Finite (5177 / 100), ''In stock'', ''Three'', ''Poetry'')"
  using book_result_eq [where site = late_site and book_soup = "detail_page ''Poetry''" and category = "''Poetry''",
      OF listing_fields_attic_pod]
  by (simp add: book_url_attic late_site_def sample_site_attic_url category_of_detail_page py_strip_Poetry
      py_float_51_77)

lemma scrape_books_late:
  "fst (scrape_books late_site) =
     Inr (frame_of [(''A Light in the Attic'', Finite (5177 / 100), ''In stock'', ''Three'', ''Poetry'')])"
proof -
  have "\<forall>p\<in>set [1..<6]. late_site (page_url p) \<noteq> None"
    unfolding late_site_def by (rule sample_site_fetched)
  moreover have "concat (map (books_on late_site) [1..<6]) = [attic_pod]"
    using all_books_sample [OF attic_pods(2)] by (simp add: late_site_def)
  then have "map (book_result late_site) (concat (map (books_on late_site) [1..<6])) =
      map Inr [(''A Light in the Attic'', Finite (5177 / 100), ''In stock'', ''Three'', ''Poetry'')]"
    by (simp add: book_result_late)
  ultimately show ?thesis by (simp only: scrape_books_run fst_conv)
qed

text \<open>
  C8, as amended. A detail page with no breadcrumb list makes the loop body raise
  \<open>AttributeError\<close>, and one whose breadcrumb has fewer than three items makes it raise
  \<open>IndexError\<close>. A run that reaches an entry whose step raises ends with that exception,
  in \<open>scrape_books\<close> and in \<open>load_data\<close>, and returns no frame. A listing page with no
  product-pod entry raises nothing: it adds no row, and the run goes on with the next
  page.
\<close>

theorem layout_mismatch:
  "(listing_fields book = Inr (title, price, availability, rating, rel) \<and>
    site (book_url rel) = Some book_soup \<longrightarrow>
      (find_first book_soup ''ul'' (Some ''breadcrumb'') = None \<longrightarrow>
         book_result site book = Inl AttributeError) \<and>
      (\<forall>ul. find_first book_soup ''ul'' (Some ''breadcrumb'') = Some ul \<and>
            length (find_all ul ''li'' None) < 3 \<longrightarrow>
         book_result site book = Inl IndexError)) \<and>
   (\<forall>e page before after.
      book_result site book = Inl e \<and> page \<in> set [1..<6] \<and>
      (\<forall>q\<in>set [1..<Suc page]. site (page_url q) \<noteq> None) \<and>
      books_on site page = before @ book # after \<and>
      (\<forall>b\<in>set (concat (map (books_on site) [1..<page]) @ before). \<exists>v. book_result site b = Inr v) \<longrightarrow>
      fst (scrape_books site) = Inl e \<and> fst (load_data site) = Inl e) \<and>
   (site (page_url page) = Some soup \<and> find_all soup ''article'' (Some ''product_pod'') = [] \<longrightarrow>
      scrape_pages site (page # pages) c sent = scrape_pages site pages c (sent @ [page_url page]))"
proof (intro conjI allI impI)
  assume a: "listing_fields book = Inr (title, price, availability, rating, rel) \<and>
    site (book_url rel) = Some book_soup"
  {
    assume "find_first book_soup ''ul'' (Some ''breadcrumb'') = None"
    with a show "book_result site book = Inl AttributeError"
      by (intro book_result_detail(1) [of book title price availability rating rel site book_soup]) simp_all
  }
  {
    fix ul
    assume "find_first book_soup ''ul'' (Some ''breadcrumb'') = Some ul \<and>
            length (find_all ul ''li'' None) < 3"
    with a show "book_result site book = Inl IndexError"
      by (intro book_result_detail(2) [of book title price availability rating rel site book_soup ul]) simp_all
  }
next
  fix e page before after
  assume r: "book_result site book = Inl e \<and> page \<in> set [1..<6] \<and>
      (\<forall>q\<in>set [1..<Suc page]. site (page_url q) \<noteq> None) \<and>
      books_on site page = before @ book # after \<and>
      (\<forall>b\<in>set (concat (map (books_on site) [1..<page]) @ before). \<exists>v. book_result site b = Inr v)"
  then have "fst (scrape_books site) = Inl e"
    by (intro run_aborts_at [of page site before book after]) blast+
  then show "fst (scrape_books site) = Inl e" "fst (load_data site) = Inl e"
    by (simp_all add: load_data_failure)
next
  assume "site (page_url page) = Some soup \<and> find_all soup ''article'' (Some ''product_pod'') = []"
  then show "scrape_pages site (page # pages) c sent = scrape_pages site pages c (sent @ [page_url page])"
    by (elim conjE) (rule scrape_pages_no_entry)
qed

theorem layout_mismatch_witness:
  "book_result bare_site attic_pod = Inl AttributeError \<and>
   book_result short_site attic_pod = Inl IndexError \<and>
   fst (scrape_books bare_site) = Inl AttributeError \<and>
   fst (load_data bare_site) = Inl AttributeError \<and>
   scrape_pages late_site [1, 2] no_columns [] = scrape_pages late_site [2] no_columns [page_url 1]"
proof -
  let ?short = "breadcrumb [Tag ''li'' [] [NavigableString ''Home''], Tag ''li'' [] [NavigableString ''Books'']]"
  let ?ul = "Tag ''ul'' [(''class'', ''breadcrumb'')]
      [Tag ''li'' [] [NavigableString ''Home''], Tag ''li'' [] [NavigableString ''Books'']]"
  have bare: "bare_site (book_url ''attic_1000/index.html'') = Some (document [])"
    by (simp add: book_url_attic bare_site_def sample_site_attic_url)
  have none: "find_first (document []) ''ul'' (Some ''breadcrumb'') = None"
    by (simp add: find_first_def find_all_def document_def)
  have short: "short_site (book_url ''attic_1000/index.html'') = Some ?short"
    by (simp add: book_url_attic short_site_def sample_site_attic_url)
  have ul: "find_first ?short ''ul'' (Some ''breadcrumb'') = Some ?ul"
    by (simp add: breadcrumb_def document_def query_defs)
  have two: "length (find_all ?ul ''li'' None) < 3"
    by (simp add: find_all_def)
  have page: "(1::nat) \<in> set [1..<6]" by simp
  have fetched: "\<forall>q\<in>set [1..<Suc 1]. bare_site (page_url q) \<noteq> None"
    by (simp add: bare_site_def sample_site_pages)
  have here: "books_on bare_site 1 = [] @ attic_pod # []"
    using books_on_sample(1) [OF attic_pods(1)] by (simp add: bare_site_def)
  have earlier: "\<forall>b\<in>set (concat (map (books_on bare_site) [1..<1]) @ []). \<exists>v. book_result bare_site b = Inr v"
    by simp
  have first: "late_site (page_url 1) = Some (document [Tag ''section'' [] []])"
    by (simp add: late_site_def sample_site_pages)
  have empty: "find_all (document [Tag ''section'' [] []]) ''article'' (Some ''product_pod'') = []"
    by (simp add: find_all_def document_def)
  note t1 = layout_mismatch [where site = bare_site and book = attic_pod and book_soup = "document []"
      and rel = "''attic_1000/index.html''" and title = "''A Light in the Attic''"
      and price = "pound # ''51.77''" and availability = "''In stock''" and rating = "''Three''"]
  note t2 = layout_mismatch [where site = short_site and book = attic_pod and book_soup = ?short
      and rel = "''attic_1000/index.html''" and title = "''A Light in the Attic''"
      and price = "pound # ''51.77''" and availability = "''In stock''" and rating = "''Three''"]
  note t3 = layout_mismatch [where site = late_site and page = 1 and soup = "document [Tag ''section'' [] []]"
      and pages = "[2]" and c = no_columns and sent = "[]"]
  from t1 [THEN conjunct1] listing_fields_attic_pod bare none
  have a: "book_result bare_site attic_pod = Inl AttributeError" by blast
  from t2 [THEN conjunct1] listing_fields_attic_pod short ul two
  have b: "book_result short_site attic_pod = Inl IndexError" by blast
  from t1 [THEN conjunct2, THEN conjunct1] a page fetched here earlier
  have c: "fst (scrape_books bare_site) = Inl AttributeError \<and> fst (load_data bare_site) = Inl AttributeError"
    by blast
  from t3 [THEN conjunct2, THEN conjunct2] first empty
  have d: "scrape_pages late_site [1, 2] no_columns [] = scrape_pages late_site [2] no_columns [page_url 1]"
    by simp
  from a b c d show ?thesis by (intro conjI) (erule conjunct1 conjunct2 | assumption)+
qed

text \<open>
  C8 as stated fails: the first listing page of this site has no product-pod entry, and
  the run goes on to the second page and returns the row of its entry.
\<close>

theorem empty_listing_page_counterexample:
  "late_site (page_url 1) = Some (document [Tag ''section'' [] []]) \<and>
   find_all (document [Tag ''section'' [] []]) ''article'' (Some ''product_pod'') = [] \<and>
   fst (scrape_books late_site) =
     Inr (frame_of [(''A Light in the Attic'', Finite (5177 / 100), ''In stock'', ''Three'', ''Poetry'')])"
proof (intro conjI)
  show "late_site (page_url 1) = Some (document [Tag ''section'' [] []])"
    by (simp add: late_site_def sample_site_pages)
  show "find_all (document [Tag ''section'' [] []]) ''article'' (Some ''product_pod'') = []"
    by (simp add: find_all_def document_def)
  show "fst (scrape_books late_site) =
     Inr (frame_of [(''A Light in the Attic'', Finite (5177 / 100), ''In stock'', ''Three'', ''Poetry'')])"
    by (rule scrape_books_late)
qed

section \<open>What \<open>float\<close> accepts\<close>


















section \<open>Prices\<close>





end
